theory Spec2Isabelle
  imports Complex_Main "HOL-Library.Multiset" "HOL-Library.Sublist"
begin

section \<open>Constants of script.js\<close>

definition DAYS_IN_MONTH :: int where
  "DAYS_IN_MONTH = 31"

definition DAYS_IN_WEEK :: int where
  "DAYS_IN_WEEK = 7"

definition MS_PER_DAY :: int where
  "MS_PER_DAY = 1000 * 60 * 60 * 24"

section \<open>JavaScript values\<close>

text \<open>
  A JavaScript number is either \<open>NaN\<close> or a value. Finite numbers are modelled as exact
  reals (integers for the results of \<open>parseInt\<close>): the rounding of IEEE-754 doubles and
  the infinities are not modelled.
\<close>

datatype 'a js = NaN | Val 'a

type_synonym number = "real js"

fun add :: "number \<Rightarrow> number \<Rightarrow> number" where
  "add (Val a) (Val b) = Val (a + b)"
| "add _ _ = NaN"

fun mul :: "number \<Rightarrow> number \<Rightarrow> number" where
  "mul (Val a) (Val b) = Val (a * b)"
| "mul _ _ = NaN"

text \<open>
  The value string of a form control, as far as the program observes it: it is empty or
  it is a non-empty text, and a non-empty text is characterised by what the built-in
  \<open>parseFloat\<close> and \<open>parseInt\<close> return for it.
\<close>

datatype fieldValue = Empty | Text number "int js"

fun truthy :: "fieldValue \<Rightarrow> bool" where
  "truthy Empty = False"
| "truthy (Text f i) = True"

fun parseFloat :: "fieldValue \<Rightarrow> number" where
  "parseFloat Empty = NaN"
| "parseFloat (Text f i) = f"

fun parseInt :: "fieldValue \<Rightarrow> int js" where
  "parseInt Empty = NaN"
| "parseInt (Text f i) = i"

section \<open>The Date object\<close>

text \<open>
  A Date is its time value, the milliseconds since 1970-01-01. The functions below are
  the abstract operations of the language standard. Local time is modelled with a zero
  offset and no daylight-saving shifts. The time value is an unbounded integer: the limit
  of 8.64e15 milliseconds on either side of 1970, beyond which a Date is invalid, is not
  modelled.
\<close>

definition Day :: "int \<Rightarrow> int" where
  "Day t = t div MS_PER_DAY"

definition TimeWithinDay :: "int \<Rightarrow> int" where
  "TimeWithinDay t = t mod MS_PER_DAY"

definition DayFromYear :: "int \<Rightarrow> int" where
  "DayFromYear y =
     365 * (y - 1970) + (y - 1969) div 4 - (y - 1901) div 100 + (y - 1601) div 400"

definition InLeapYear :: "int \<Rightarrow> int" where
  "InLeapYear y =
     (if y mod 4 \<noteq> 0 then 0
      else if y mod 100 \<noteq> 0 then 1
      else if y mod 400 \<noteq> 0 then 0
      else 1)"

text \<open>
  The year of a day number is the largest \<open>y\<close> with \<open>DayFromYear y \<le> d\<close>: it is computed
  from the estimate by the mean year length of 146097/400 days, corrected by one.
\<close>

definition YearFromDay :: "int \<Rightarrow> int" where
  "YearFromDay d =
     (let y = 1970 + (400 * d) div 146097
      in if d < DayFromYear y then y - 1
         else if DayFromYear (y + 1) \<le> d then y + 1
         else y)"

definition YearFromTime :: "int \<Rightarrow> int" where
  "YearFromTime t = YearFromDay (Day t)"

definition DayWithinYear :: "int \<Rightarrow> int" where
  "DayWithinYear t = Day t - DayFromYear (YearFromTime t)"

text \<open>The day within the year on which month \<open>m\<close> (0 to 11) starts; 12 gives the year's length.\<close>

definition monthStart :: "int \<Rightarrow> int \<Rightarrow> int" where
  "monthStart leap m =
     (if m = 0 then 0
      else if m = 1 then 31
      else if m = 2 then 59 + leap
      else if m = 3 then 90 + leap
      else if m = 4 then 120 + leap
      else if m = 5 then 151 + leap
      else if m = 6 then 181 + leap
      else if m = 7 then 212 + leap
      else if m = 8 then 243 + leap
      else if m = 9 then 273 + leap
      else if m = 10 then 304 + leap
      else if m = 11 then 334 + leap
      else 365 + leap)"

definition MonthFromTime :: "int \<Rightarrow> int" where
  "MonthFromTime t =
     (let d = DayWithinYear t; leap = InLeapYear (YearFromTime t)
      in if d < 31 then 0
         else if d < 59 + leap then 1
         else if d < 90 + leap then 2
         else if d < 120 + leap then 3
         else if d < 151 + leap then 4
         else if d < 181 + leap then 5
         else if d < 212 + leap then 6
         else if d < 243 + leap then 7
         else if d < 273 + leap then 8
         else if d < 304 + leap then 9
         else if d < 334 + leap then 10
         else 11)"

definition DateFromTime :: "int \<Rightarrow> int" where
  "DateFromTime t =
     DayWithinYear t - monthStart (InLeapYear (YearFromTime t)) (MonthFromTime t) + 1"

definition WeekDay :: "int \<Rightarrow> int" where
  "WeekDay t = (Day t + 4) mod 7"

definition MakeDay :: "int \<Rightarrow> int \<Rightarrow> int \<Rightarrow> int" where
  "MakeDay year month date =
     (let ym = year + month div 12; mn = month mod 12
      in DayFromYear ym + monthStart (InLeapYear ym) mn + date - 1)"

definition MakeDate :: "int \<Rightarrow> int \<Rightarrow> int" where
  "MakeDate day time = day * MS_PER_DAY + time"

subsection \<open>The methods the program calls\<close>

definition getFullYear :: "int \<Rightarrow> int" where
  "getFullYear t = YearFromTime t"

definition getMonth :: "int \<Rightarrow> int" where
  "getMonth t = MonthFromTime t"

definition getDate :: "int \<Rightarrow> int" where
  "getDate t = DateFromTime t"

definition getDay :: "int \<Rightarrow> int" where
  "getDay t = WeekDay t"

text \<open>\<open>new Date(year, month, date)\<close>: a year from 0 to 99 stands for 1900 + year.\<close>

definition newDate :: "int \<Rightarrow> int \<Rightarrow> int \<Rightarrow> int" where
  "newDate year month date =
     MakeDate (MakeDay (if 0 \<le> year \<and> year \<le> 99 then 1900 + year else year) month date) 0"

definition setDate :: "int \<Rightarrow> int \<Rightarrow> int" where
  "setDate t date = MakeDate (MakeDay (YearFromTime t) (MonthFromTime t) date) (TimeWithinDay t)"

definition setMonth :: "int \<Rightarrow> int \<Rightarrow> int" where
  "setMonth t month = MakeDate (MakeDay (YearFromTime t) month (DateFromTime t)) (TimeWithinDay t)"

section \<open>The form\<close>

text \<open>
  An \<open>.expense-item\<close> element, as \<open>querySelector\<close> sees it: the value of its control
  of a given name, or nothing when the item has no control of that name. A container
  is the list of its expense items in document order.
\<close>

type_synonym expenseItem = "string \<Rightarrow> fieldValue option"

record elements =
  monthlyContainer :: "expenseItem list"
  weeklyContainer :: "expenseItem list"
  dailyContainer :: "expenseItem list"

text \<open>\<open>new FormData(elements.form)\<close>: the entries of the form, name and value, in order.\<close>

type_synonym formData = "(string \<times> fieldValue) list"

section \<open>updateTotals: the monthly total\<close>

text \<open>
  The specification calls the three computations \<open>computeMonthlyTotal\<close> (here
  \<open>monthlyTotal\<close>, the first half of \<open>updateTotals\<close>), \<open>resolvePaydayDate\<close> (here
  \<open>payDayDate\<close>) and \<open>projectExpensesUntilPayday\<close> (here
  \<open>calculateExpensesUntilPayday\<close>).
\<close>

definition multipliers :: "string \<Rightarrow> real option" where
  "multipliers =
     [''monthly-amount'' \<mapsto> 1,
      ''weekly-amount'' \<mapsto> real_of_int DAYS_IN_MONTH / real_of_int DAYS_IN_WEEK,
      ''daily-amount'' \<mapsto> real_of_int DAYS_IN_MONTH]"

text \<open>\<open>x || 0\<close> on a number: \<open>NaN\<close> and 0 are the falsy numbers.\<close>

fun orZero :: "number \<Rightarrow> real" where
  "orZero NaN = 0"
| "orZero (Val a) = a"

definition multiplierOrZero :: "string \<Rightarrow> real" where
  "multiplierOrZero name = (case multipliers name of None \<Rightarrow> 0 | Some m \<Rightarrow> m)"

definition monthlyTotal :: "formData \<Rightarrow> real" where
  "monthlyTotal formData =
     foldl (\<lambda>total (name, value). total + orZero (parseFloat value) * multiplierOrZero name)
       0
       (filter (\<lambda>(name, value). suffix ''-amount'' name) formData)"

text \<open>\<open>parseInt(formData.get("pay-day")) || 25\<close>\<close>

definition payDayOf :: "formData \<Rightarrow> int" where
  "payDayOf formData =
     (case map_of formData ''pay-day'' of
        None \<Rightarrow> 25
      | Some value \<Rightarrow>
          (case parseInt value of
             NaN \<Rightarrow> 25
           | Val n \<Rightarrow> if n = 0 then 25 else n))"

section \<open>calculateExpensesUntilPayday\<close>

text \<open>
  The clock reading \<open>today\<close> of \<open>new Date()\<close> is a parameter, and so are the containers
  the function reads.
\<close>

definition payDayDate :: "int \<Rightarrow> int \<Rightarrow> int" where
  "payDayDate today payDay =
     (let currentDay = getDate today;
          currentMonth = getMonth today;
          currentYear = getFullYear today
      in if payDay \<le> currentDay
         then newDate currentYear (currentMonth + 1) payDay
         else newDate currentYear currentMonth payDay)"

text \<open>\<open>parseFloat(expense.querySelector(selector)?.value || 0)\<close>\<close>

definition getExpenseAmount :: "expenseItem \<Rightarrow> string \<Rightarrow> number" where
  "getExpenseAmount expense selector =
     (case expense selector of
        None \<Rightarrow> Val 0
      | Some value \<Rightarrow> if truthy value then parseFloat value else Val 0)"

subsection \<open>Daily expenses\<close>

text \<open>
  \<open>Math.ceil((payDayDate - today) / MS_PER_DAY)\<close>, as the ceiling of the exact quotient
  of the two integers.
\<close>

definition ceilDays :: "int \<Rightarrow> int" where
  "ceilDays ms = - ((- ms) div MS_PER_DAY)"

definition daysUntilPayday :: "int \<Rightarrow> int \<Rightarrow> int" where
  "daysUntilPayday today payDay =
     (let days = ceilDays (payDayDate today payDay - today)
      in if getDate today = payDay \<and> getMonth (payDayDate today payDay) = getMonth today
         then 1
         else days)"

definition dailyStep :: "int \<Rightarrow> int \<Rightarrow> number \<Rightarrow> expenseItem \<Rightarrow> number" where
  "dailyStep today payDay tot expense =
     (let amount = getExpenseAmount expense ''daily-amount''
      in add tot (mul amount (Val (real_of_int (max 0 (daysUntilPayday today payDay))))))"

definition dailyExpenses :: "int \<Rightarrow> int \<Rightarrow> expenseItem list \<Rightarrow> number" where
  "dailyExpenses today payDay items = foldl (dailyStep today payDay) (Val 0) items"

subsection \<open>Weekly expenses\<close>

text \<open>
  The two \<open>while\<close> loops. A loop that does not end has no result: the value \<open>None\<close>.
\<close>

partial_function (option) findNextOccurrence :: "int js \<Rightarrow> int \<Rightarrow> int \<Rightarrow> int option" where
  "findNextOccurrence targetDay today nextOccurrence =
     (if Val (getDay nextOccurrence) \<noteq> targetDay \<or> nextOccurrence \<le> today
      then findNextOccurrence targetDay today
             (setDate nextOccurrence (getDate nextOccurrence + 1))
      else Some nextOccurrence)"

partial_function (option) countOccurrences :: "int \<Rightarrow> int \<Rightarrow> int \<Rightarrow> int option" where
  "countOccurrences payDayDate' nextOccurrence occurrences =
     (if nextOccurrence < payDayDate'
      then countOccurrences payDayDate'
             (setDate nextOccurrence (getDate nextOccurrence + DAYS_IN_WEEK))
             (occurrences + 1)
      else Some occurrences)"

declare findNextOccurrence.simps [code]
declare countOccurrences.simps [code]

definition weeklyStep :: "int \<Rightarrow> int \<Rightarrow> number \<Rightarrow> expenseItem \<Rightarrow> number option" where
  "weeklyStep today payDay tot expense =
     (let amount = getExpenseAmount expense ''weekly-amount'';
          dayOfWeek = expense ''weekly-day''
      in case dayOfWeek of
           None \<Rightarrow> Some tot
         | Some value \<Rightarrow>
             if \<not> truthy value then Some tot
             else
               (case findNextOccurrence (parseInt value) today today of
                  None \<Rightarrow> None
                | Some nextOccurrence \<Rightarrow>
                    (case countOccurrences (payDayDate today payDay) nextOccurrence 0 of
                       None \<Rightarrow> None
                     | Some occurrences \<Rightarrow>
                         Some (add tot (mul amount (Val (real_of_int occurrences)))))))"

text \<open>\<open>reduce\<close> with a callback that may not return.\<close>

fun reduceOption :: "('b \<Rightarrow> 'a \<Rightarrow> 'b option) \<Rightarrow> 'b \<Rightarrow> 'a list \<Rightarrow> 'b option" where
  "reduceOption f tot [] = Some tot"
| "reduceOption f tot (x # xs) =
     (case f tot x of None \<Rightarrow> None | Some tot' \<Rightarrow> reduceOption f tot' xs)"

definition weeklyExpenses :: "int \<Rightarrow> int \<Rightarrow> expenseItem list \<Rightarrow> number option" where
  "weeklyExpenses today payDay items = reduceOption (weeklyStep today payDay) (Val 0) items"

subsection \<open>Monthly expenses\<close>

text \<open>
  \<open>parseInt(expense.querySelector('select[name="monthly-day"]')?.value || 1)\<close>. When it
  is \<open>NaN\<close>, \<open>new Date(currentYear, currentMonth, NaN)\<close> is an invalid date,
  \<open>NaN <= currentDay\<close> is false and so is the comparison of the invalid date with the
  payday: the running total is returned as it is.
\<close>

definition dayOfMonthOf :: "expenseItem \<Rightarrow> int js" where
  "dayOfMonthOf expense =
     (case expense ''monthly-day'' of
        None \<Rightarrow> Val 1
      | Some value \<Rightarrow> if truthy value then parseInt value else Val 1)"

definition expenseDate :: "int \<Rightarrow> int \<Rightarrow> int" where
  "expenseDate today dayOfMonth =
     (let date = newDate (getFullYear today) (getMonth today) dayOfMonth
      in if dayOfMonth \<le> getDate today
         then setMonth date (getMonth date + 1)
         else date)"

definition monthlyStep :: "int \<Rightarrow> int \<Rightarrow> number \<Rightarrow> expenseItem \<Rightarrow> number" where
  "monthlyStep today payDay tot expense =
     (let amount = getExpenseAmount expense ''monthly-amount''
      in case dayOfMonthOf expense of
           NaN \<Rightarrow> tot
         | Val dayOfMonth \<Rightarrow>
             if expenseDate today dayOfMonth < payDayDate today payDay
             then add tot amount
             else tot)"

definition monthlyExpenses :: "int \<Rightarrow> int \<Rightarrow> expenseItem list \<Rightarrow> number" where
  "monthlyExpenses today payDay items = foldl (monthlyStep today payDay) (Val 0) items"

subsection \<open>The total until payday\<close>

definition calculateExpensesUntilPayday :: "int \<Rightarrow> int \<Rightarrow> elements \<Rightarrow> number option" where
  "calculateExpensesUntilPayday today payDay els =
     (let daily = dailyExpenses today payDay (dailyContainer els)
      in case weeklyExpenses today payDay (weeklyContainer els) of
           None \<Rightarrow> None
         | Some weekly \<Rightarrow>
             Some (add (add daily weekly)
                    (monthlyExpenses today payDay (monthlyContainer els))))"

text \<open>The two figures \<open>updateTotals\<close> displays, before they are formatted.\<close>

definition updateTotals :: "int \<Rightarrow> formData \<Rightarrow> elements \<Rightarrow> (real \<times> number) option" where
  "updateTotals today formData els =
     (let monthly = monthlyTotal formData;
          payDay = payDayOf formData
      in case calculateExpensesUntilPayday today payDay els of
           None \<Rightarrow> None
         | Some paydayTotal \<Rightarrow> Some (monthly, paydayTotal))"

section \<open>The program in a time zone\<close>



























section \<open>Notions of the specification\<close>

text \<open>The term one form entry adds to the monthly total.\<close>

definition entryTerm :: "string \<times> fieldValue \<Rightarrow> real" where
  "entryTerm e =
     (if suffix ''-amount'' (fst e) then orZero (parseFloat (snd e)) * multiplierOrZero (fst e)
      else 0)"

text \<open>
  The amounts of the records of one cadence, in order: the entries of the cadence's
  amount field, an amount that does not parse counting as 0.
\<close>

definition amountsOf :: "string \<Rightarrow> formData \<Rightarrow> real list" where
  "amountsOf name formData =
     map (\<lambda>(n, value). case parseFloat value of NaN \<Rightarrow> 0 | Val a \<Rightarrow> a)
       (filter (\<lambda>(n, value). n = name) formData)"

text \<open>The number of days of month \<open>m\<close> (0 to 11) of year \<open>y\<close>.\<close>

definition DaysInMonth :: "int \<Rightarrow> int \<Rightarrow> int" where
  "DaysInMonth y m = monthStart (InLeapYear y) (m + 1) - monthStart (InLeapYear y) m"

text \<open>The month that follows month \<open>m\<close> of year \<open>y\<close>.\<close>

definition monthAfter :: "int \<Rightarrow> int \<Rightarrow> int \<times> int" where
  "monthAfter y m = (if m = 11 then (y + 1, 0) else (y, m + 1))"

text \<open>The date \<open>t\<close> is midnight of day \<open>d\<close> of month \<open>m\<close> of year \<open>y\<close>.\<close>

definition onDay :: "int \<Rightarrow> int \<Rightarrow> int \<Rightarrow> int \<Rightarrow> bool" where
  "onDay t y m d =
     (getFullYear t = y \<and> getMonth t = m \<and> getDate t = d \<and> TimeWithinDay t = 0)"

text \<open>
  The month a day number is taken in: the current month, or the following month when
  the day number is not after today's.
\<close>

definition targetMonth :: "int \<Rightarrow> int \<Rightarrow> int \<times> int" where
  "targetMonth today day =
     (if day \<le> getDate today then monthAfter (getFullYear today) (getMonth today)
      else (getFullYear today, getMonth today))"

text \<open>The number of days from a day of weekday \<open>g\<close> to the next day of weekday \<open>w\<close>.\<close>

definition daysToNext :: "int \<Rightarrow> int \<Rightarrow> int" where
  "daysToNext g w = (w - g - 1) mod 7 + 1"

text \<open>How many of the days \<open>first\<close>, \<open>first + 7\<close>, \<open>first + 14\<close>, ... are before day \<open>p\<close>.\<close>

definition weeksBefore :: "int \<Rightarrow> int \<Rightarrow> int" where
  "weeksBefore first p = max 0 ((p - first + 6) div 7)"

text \<open>The sum of a list of numbers, from the left, as \<open>reduce\<close> adds them.\<close>

definition sumNumbers :: "number list \<Rightarrow> number" where
  "sumNumbers xs = foldl add (Val 0) xs"

text \<open>
  The number of the weekly occurrences before the payday: the first is on the first day
  after today with weekday \<open>w\<close>, the others follow every 7 days.
\<close>

definition occurrencesBefore :: "int \<Rightarrow> int \<Rightarrow> int \<Rightarrow> int" where
  "occurrencesBefore today payDay w =
     weeksBefore (Day today + daysToNext (getDay today) w) (Day (payDayDate today payDay))"

text \<open>What one weekly record contributes to the total until payday.\<close>

definition weeklyContribution :: "int \<Rightarrow> int \<Rightarrow> expenseItem \<Rightarrow> number" where
  "weeklyContribution today payDay expense =
     (case expense ''weekly-day'' of
        Some (Text f (Val w)) \<Rightarrow>
          mul (getExpenseAmount expense ''weekly-amount'')
              (Val (real_of_int (occurrencesBefore today payDay w)))
      | _ \<Rightarrow> Val 0)"

text \<open>The day of the week of a record is absent, empty, or one of 0 to 6.\<close>

definition weeklyDayOk :: "expenseItem \<Rightarrow> bool" where
  "weeklyDayOk expense =
     (case expense ''weekly-day'' of
        None \<Rightarrow> True
      | Some Empty \<Rightarrow> True
      | Some (Text f NaN) \<Rightarrow> False
      | Some (Text f (Val w)) \<Rightarrow> 0 \<le> w \<and> w \<le> 6)"

text \<open>A monthly record is included: its candidate date is strictly before the payday.\<close>

definition monthlyIncluded :: "int \<Rightarrow> int \<Rightarrow> expenseItem \<Rightarrow> bool" where
  "monthlyIncluded today payDay expense =
     (case dayOfMonthOf expense of
        NaN \<Rightarrow> False
      | Val d \<Rightarrow> expenseDate today d < payDayDate today payDay)"


section \<open>Integer division\<close>

lemma int_div_unique: 
  fixes c q x :: int
  assumes "0 < c" "c * q \<le> x" "x < c * q + c"
  shows "x div c = q"
proof -
  have "x = c * q + (x - c * q)" by simp
  then have "x div c = (c * q + (x - c * q)) div c" by simp
  also have "\<dots> = q + (x - c * q) div c" using assms(1) by (subst div_mult_self4) auto
  also have "(x - c * q) div c = 0" using assms by (intro div_pos_pos_trivial) auto
  finally show ?thesis by simp
qed

lemma int_div_bounds:
  fixes c x :: int
  assumes "0 < c"
  shows "c * (x div c) \<le> x" "x < c * (x div c) + c"
proof -
  have "x = c * (x div c) + x mod c" by simp
  moreover have "0 \<le> x mod c" "x mod c < c" using assms by auto
  ultimately show "c * (x div c) \<le> x" "x < c * (x div c) + c" by linarith+
qed

lemma int_mod_eq: "x mod c = x - c * (x div c)" for x c :: int
  by (simp add: minus_mult_div_eq_mod)

lemma div_succ:
  fixes c x :: int
  assumes "0 < c"
  shows "(x + 1) div c = x div c + (if (x + 1) mod c = 0 then 1 else 0)"
proof (cases "(x + 1) mod c = 0")
  case True
  then have e: "x + 1 = c * ((x + 1) div c)" by (simp add: int_mod_eq)
  have "x div c = (x + 1) div c - 1"
    using assms e by (intro int_div_unique) (auto simp: algebra_simps)
  with True show ?thesis by simp
next
  case False
  have b: "c * ((x + 1) div c) \<le> x + 1" "x + 1 < c * ((x + 1) div c) + c"
    using int_div_bounds[OF assms, of "x + 1"] by auto
  have "x + 1 \<noteq> c * ((x + 1) div c)" using False by (simp add: int_mod_eq)
  then have "x div c = (x + 1) div c"
    using assms b by (intro int_div_unique) auto
  with False show ?thesis by simp
qed

section \<open>The year of a day\<close>

lemma mod_shift: "(y - 1968) mod 4 = y mod 4" "(y - 1900) mod 100 = y mod 100" "(y - 1600) mod 400 = y mod 400" for y :: int
proof -
  have "(y - 1968) mod 4 = (y + 4 * (-492)) mod 4" by simp
  also have "\<dots> = y mod 4" by (simp only: mod_mult_self2) 
  finally show "(y - 1968) mod 4 = y mod 4" .
  have "(y - 1900) mod 100 = (y + 100 * (-19)) mod 100" by simp
  also have "\<dots> = y mod 100" by (simp only: mod_mult_self2) 
  finally show "(y - 1900) mod 100 = y mod 100" .
  have "(y - 1600) mod 400 = (y + 400 * (-4)) mod 400" by simp
  also have "\<dots> = y mod 400" by (simp only: mod_mult_self2) 
  finally show "(y - 1600) mod 400 = y mod 400" .
qed

lemma mod_chain: "y mod 400 = 0 \<Longrightarrow> y mod 100 = 0" "y mod 100 = 0 \<Longrightarrow> y mod 4 = 0" for y :: int
proof -
  have a: "(100::int) dvd 400" "(4::int) dvd 100" by simp_all
  show "y mod 400 = 0 \<Longrightarrow> y mod 100 = 0"
    using dvd_trans[OF a(1), of y] by (simp add: mod_eq_0_iff_dvd)
  show "y mod 100 = 0 \<Longrightarrow> y mod 4 = 0"
    using dvd_trans[OF a(2), of y] by (simp add: mod_eq_0_iff_dvd)
qed

lemma DayFromYear_step: "DayFromYear (y + 1) = DayFromYear y + 365 + InLeapYear y"
proof -
  have 1: "(y + 1 - 1969) div 4 = (y - 1969) div 4 + (if y mod 4 = 0 then 1 else 0)"
    using div_succ[of 4 "y - 1969"] by (simp add: mod_shift)
  have 2: "(y + 1 - 1901) div 100 = (y - 1901) div 100 + (if y mod 100 = 0 then 1 else 0)"
    using div_succ[of 100 "y - 1901"] by (simp add: mod_shift)
  have 3: "(y + 1 - 1601) div 400 = (y - 1601) div 400 + (if y mod 400 = 0 then 1 else 0)"
    using div_succ[of 400 "y - 1601"] by (simp add: mod_shift)
  show ?thesis
    using mod_chain[of y]
    unfolding DayFromYear_def InLeapYear_def 1 2 3
    by auto
qed


lemma DayFromYear_lower:
  fixes d :: int
  defines "y \<equiv> 1970 + (400 * d) div 146097"
  shows "DayFromYear (y - 1) \<le> d"
proof -
  define n where "n = (400 * d) div 146097"
  have n: "146097 * n \<le> 400 * d"
    unfolding n_def using int_div_bounds(1)[of 146097 "400 * d"] by simp
  have a: "4 * ((n - 1 + 1) div 4) \<le> n"
    using int_div_bounds(1)[of 4 n] by simp
  have b: "n + 68 < 100 * ((n + 68) div 100) + 100"
    using int_div_bounds(2)[of 100 "n + 68"] by simp
  have c: "400 * ((n + 368) div 400) \<le> n + 368"
    using int_div_bounds(1)[of 400 "n + 368"] by simp
  have "DayFromYear (y - 1) = 365 * (n - 1) + n div 4 - (n + 68) div 100 + (n + 368) div 400"
    unfolding DayFromYear_def y_def n_def by (simp add: algebra_simps)
  then show ?thesis using n a b c by simp
qed

lemma DayFromYear_upper:
  fixes d :: int
  defines "y \<equiv> 1970 + (400 * d) div 146097"
  shows "d < DayFromYear (y + 2)"
proof -
  define n where "n = (400 * d) div 146097"
  have n: "400 * d < 146097 * n + 146097"
    unfolding n_def using int_div_bounds(2)[of 146097 "400 * d"] by simp
  have a: "n + 3 < 4 * ((n + 3) div 4) + 4"
    using int_div_bounds(2)[of 4 "n + 3"] by simp
  have b: "100 * ((n + 71) div 100) \<le> n + 71"
    using int_div_bounds(1)[of 100 "n + 71"] by simp
  have c: "n + 371 < 400 * ((n + 371) div 400) + 400"
    using int_div_bounds(2)[of 400 "n + 371"] by simp
  have "DayFromYear (y + 2) = 365 * (n + 2) + (n + 3) div 4 - (n + 71) div 100 + (n + 371) div 400"
    unfolding DayFromYear_def y_def n_def by (simp add: algebra_simps)
  then show ?thesis using n a b c by simp
qed

lemma YearFromDay_bounds:
  "DayFromYear (YearFromDay d) \<le> d" "d < DayFromYear (YearFromDay d + 1)"
  using DayFromYear_lower[of d] DayFromYear_upper[of d]
  unfolding YearFromDay_def Let_def
  by (auto simp: algebra_simps)

lemma InLeapYear_range: "InLeapYear y = 0 \<or> InLeapYear y = 1"
  by (simp add: InLeapYear_def)

lemma DayFromYear_mono: "y \<le> y' \<Longrightarrow> DayFromYear y \<le> DayFromYear y'"
proof (induction "nat (y' - y)" arbitrary: y')
  case 0
  then show ?case by simp
next
  case (Suc k)
  then have "k = nat ((y' - 1) - y)" "y \<le> y' - 1" by auto
  then have "DayFromYear y \<le> DayFromYear (y' - 1)" using Suc.hyps(1) by blast
  moreover have "DayFromYear y' = DayFromYear (y' - 1) + 365 + InLeapYear (y' - 1)"
    using DayFromYear_step[of "y' - 1"] by simp
  ultimately show ?case using InLeapYear_range[of "y' - 1"] by linarith
qed

lemma YearFromDay_unique:
  assumes "DayFromYear y \<le> d" "d < DayFromYear (y + 1)"
  shows "YearFromDay d = y"
proof (rule ccontr)
  assume ne: "YearFromDay d \<noteq> y"
  show False
  proof (cases "YearFromDay d < y")
    case True
    then have "DayFromYear (YearFromDay d + 1) \<le> DayFromYear y"
      by (intro DayFromYear_mono) simp
    with YearFromDay_bounds(2)[of d] assms show False by linarith
  next
    case False
    with ne have "DayFromYear (y + 1) \<le> DayFromYear (YearFromDay d)"
      by (intro DayFromYear_mono) simp
    with YearFromDay_bounds(1)[of d] assms show False by linarith
  qed
qed


section \<open>Days and times within the day\<close>

lemma MS_PER_DAY_pos: "0 < MS_PER_DAY"
  by (simp add: MS_PER_DAY_def)

lemma Day_MakeDate:
  assumes "0 \<le> tm" "tm < MS_PER_DAY"
  shows "Day (MakeDate d tm) = d"
  unfolding Day_def MakeDate_def
  using assms MS_PER_DAY_pos by (intro int_div_unique) (auto simp: algebra_simps)

lemma TimeWithinDay_MakeDate:
  assumes "0 \<le> tm" "tm < MS_PER_DAY"
  shows "TimeWithinDay (MakeDate d tm) = tm"
  unfolding TimeWithinDay_def MakeDate_def
  using assms by (simp add: mod_pos_pos_trivial)

lemma TimeWithinDay_range: "0 \<le> TimeWithinDay t" "TimeWithinDay t < MS_PER_DAY"
  unfolding TimeWithinDay_def using MS_PER_DAY_pos by auto

lemma MakeDate_Day: "MakeDate (Day t) (TimeWithinDay t) = t"
  unfolding MakeDate_def Day_def TimeWithinDay_def by simp

lemma Year_bounds:
  "DayFromYear (YearFromTime t) \<le> Day t" "Day t < DayFromYear (YearFromTime t + 1)"
  unfolding YearFromTime_def using YearFromDay_bounds by auto

lemma DayWithinYear_range:
  "0 \<le> DayWithinYear t" "DayWithinYear t < 365 + InLeapYear (YearFromTime t)"
  unfolding DayWithinYear_def
  using Year_bounds[of t] DayFromYear_step[of "YearFromTime t"] by auto

lemma MonthFromTime_range: "0 \<le> MonthFromTime t" "MonthFromTime t \<le> 11"
  unfolding MonthFromTime_def Let_def by auto

lemma monthStart_MonthFromTime:
  "monthStart (InLeapYear (YearFromTime t)) (MonthFromTime t) \<le> DayWithinYear t"
  "DayWithinYear t < monthStart (InLeapYear (YearFromTime t)) (MonthFromTime t + 1)"
  using DayWithinYear_range[of t] InLeapYear_range[of "YearFromTime t"]
  unfolding MonthFromTime_def Let_def monthStart_def
  by auto

lemma MakeDay_in_year:
  assumes "0 \<le> m" "m \<le> 11"
  shows "MakeDay y m dt = DayFromYear y + monthStart (InLeapYear y) m + dt - 1"
proof -
  have "m div 12 = 0" "m mod 12 = m" using assms by auto
  then show ?thesis by (simp add: MakeDay_def)
qed

lemma MakeDay_fields:
  "MakeDay (YearFromTime t) (MonthFromTime t) dt = Day t + (dt - DateFromTime t)"
  using MonthFromTime_range[of t]
  by (simp add: MakeDay_in_year DateFromTime_def DayWithinYear_def)

lemma setDate_add: "setDate t (getDate t + n) = t + n * MS_PER_DAY"
proof -
  have "setDate t (getDate t + n) = MakeDate (Day t + n) (TimeWithinDay t)"
    by (simp add: setDate_def getDate_def MakeDay_fields)
  also have "\<dots> = MakeDate (Day t) (TimeWithinDay t) + n * MS_PER_DAY"
    by (simp add: MakeDate_def algebra_simps)
  finally show ?thesis by (simp add: MakeDate_Day)
qed

section \<open>Calendar fields\<close>

lemma Day_depends:
  assumes "Day t1 = Day t2"
  shows "YearFromTime t1 = YearFromTime t2" "MonthFromTime t1 = MonthFromTime t2"
    "DateFromTime t1 = DateFromTime t2" "WeekDay t1 = WeekDay t2"
proof -
  show y: "YearFromTime t1 = YearFromTime t2" using assms by (simp add: YearFromTime_def)
  have d: "DayWithinYear t1 = DayWithinYear t2" using assms y by (simp add: DayWithinYear_def)
  show m: "MonthFromTime t1 = MonthFromTime t2" using y d by (simp add: MonthFromTime_def)
  show "DateFromTime t1 = DateFromTime t2" using y d m by (simp add: DateFromTime_def)
  show "WeekDay t1 = WeekDay t2" using assms by (simp add: WeekDay_def)
qed

lemma month_disj:
  fixes m :: int
  assumes "0 \<le> m" "m \<le> 11"
  shows "m = 0 \<or> m = 1 \<or> m = 2 \<or> m = 3 \<or> m = 4 \<or> m = 5 \<or> m = 6 \<or> m = 7
    \<or> m = 8 \<or> m = 9 \<or> m = 10 \<or> m = 11"
  using assms by presburger

lemma month_cases:
  fixes m :: int
  assumes "0 \<le> m" "m \<le> 11"
  obtains "m = 0" | "m = 1" | "m = 2" | "m = 3" | "m = 4" | "m = 5" | "m = 6" | "m = 7"
    | "m = 8" | "m = 9" | "m = 10" | "m = 11"
  using month_disj[OF assms] by blast

lemma InLeapYear_bounds: "0 \<le> InLeapYear y" "InLeapYear y \<le> 1"
  by (simp_all add: InLeapYear_def)

lemma monthStart_mono:
  assumes "0 \<le> m" "m \<le> 11" "0 \<le> l" "l \<le> 1"
  shows "0 \<le> monthStart l m" "monthStart l (m + 1) \<le> 365 + l" "monthStart l m + 28 \<le> monthStart l (m + 1)"
    "monthStart l (m + 1) \<le> monthStart l m + 31"
proof -
  show "0 \<le> monthStart l m"
    using assms(3,4) by (cases rule: month_cases[OF assms(1,2)]) (simp_all add: monthStart_def)
  show "monthStart l (m + 1) \<le> 365 + l"
    using assms(3,4) by (cases rule: month_cases[OF assms(1,2)]) (simp_all add: monthStart_def)
  show "monthStart l m + 28 \<le> monthStart l (m + 1)"
    using assms(3,4) by (cases rule: month_cases[OF assms(1,2)]) (simp_all add: monthStart_def)
  show "monthStart l (m + 1) \<le> monthStart l m + 31"
    using assms(3,4) by (cases rule: month_cases[OF assms(1,2)]) (simp_all add: monthStart_def)
qed

lemma month_of_day:
  assumes "0 \<le> m" "m \<le> 11" "0 \<le> l" "l \<le> 1"
    and "monthStart l m \<le> d" "d < monthStart l (m + 1)"
  shows "(if d < 31 then 0
         else if d < 59 + l then 1
         else if d < 90 + l then 2
         else if d < 120 + l then 3
         else if d < 151 + l then 4
         else if d < 181 + l then 5
         else if d < 212 + l then 6
         else if d < 243 + l then 7
         else if d < 273 + l then 8
         else if d < 304 + l then 9
         else if d < 334 + l then 10
         else 11) = m"
  using assms(3-) by (cases rule: month_cases[OF assms(1,2)]) (simp_all add: monthStart_def)

lemma fields_of_day:
  assumes m: "0 \<le> m" "m \<le> 11"
    and dt: "1 \<le> dt" "dt \<le> DaysInMonth y m"
    and t: "Day t = MakeDay y m dt"
  shows "YearFromTime t = y" "MonthFromTime t = m" "DateFromTime t = dt"
proof -
  let ?l = "InLeapYear y"
  note l = InLeapYear_bounds[of y]
  have D: "Day t = DayFromYear y + monthStart ?l m + dt - 1"
    using t m by (simp add: MakeDay_in_year)
  have lo: "DayFromYear y \<le> Day t"
    using D dt monthStart_mono(1)[OF m l] by linarith
  have hi: "Day t < DayFromYear (y + 1)"
    using D dt monthStart_mono(2)[OF m l] DayFromYear_step[of y]
    by (simp add: DaysInMonth_def)
  show y: "YearFromTime t = y"
    unfolding YearFromTime_def using lo hi by (rule YearFromDay_unique)
  have w: "DayWithinYear t = monthStart ?l m + dt - 1"
    using D y by (simp add: DayWithinYear_def)
  show mm: "MonthFromTime t = m"
    unfolding MonthFromTime_def Let_def y w
    using dt by (intro month_of_day[OF m l]) (auto simp: DaysInMonth_def)
  show "DateFromTime t = dt"
    by (simp add: DateFromTime_def y mm w)
qed

lemma DateFromTime_range: "1 \<le> DateFromTime t" "DateFromTime t \<le> DaysInMonth (YearFromTime t) (MonthFromTime t)"
  using monthStart_MonthFromTime[of t]
  by (auto simp: DateFromTime_def DaysInMonth_def)

lemma DaysInMonth_range:
  assumes "0 \<le> m" "m \<le> 11"
  shows "28 \<le> DaysInMonth y m" "DaysInMonth y m \<le> 31"
  using monthStart_mono(3,4)[OF assms InLeapYear_bounds[of y]] by (auto simp: DaysInMonth_def)

text \<open>Month index 12 is January of the following year.\<close>

lemma MakeDay_month12: "MakeDay y 12 dt = MakeDay (y + 1) 0 dt"
  by (simp add: MakeDay_def)

lemma MakeDay_overflow:
  assumes "0 \<le> m" "m \<le> 11"
  shows "MakeDay y m (DaysInMonth y m + k) = MakeDay y (m + 1) k"
proof (cases "m = 11")
  case True
  have "MakeDay y 11 (DaysInMonth y 11 + k) = DayFromYear y + 365 + InLeapYear y + k - 1"
    by (simp add: MakeDay_in_year DaysInMonth_def monthStart_def)
  also have "\<dots> = MakeDay (y + 1) 0 k"
    by (simp add: MakeDay_in_year DayFromYear_step monthStart_def)
  finally show ?thesis using True by (simp add: MakeDay_month12)
next
  case False
  then have "m + 1 \<le> 11" "0 \<le> m + 1" using assms by auto
  then show ?thesis using assms by (simp add: MakeDay_in_year DaysInMonth_def)
qed

section \<open>Dates built from a year, a month and a day\<close>

lemma onDay_MakeDay:
  assumes "0 \<le> m" "m \<le> 11" "1 \<le> d" "d \<le> DaysInMonth y m"
  shows "onDay (MakeDate (MakeDay y m d) 0) y m d"
proof -
  have D: "Day (MakeDate (MakeDay y m d) 0) = MakeDay y m d"
    using MS_PER_DAY_pos by (simp add: Day_MakeDate)
  have T: "TimeWithinDay (MakeDate (MakeDay y m d) 0) = 0"
    using MS_PER_DAY_pos by (simp add: TimeWithinDay_MakeDate)
  show ?thesis
    unfolding onDay_def getFullYear_def getMonth_def getDate_def
    using fields_of_day[OF assms D] T by simp
qed

lemma MakeDay_monthAfter:
  assumes "0 \<le> m" "m \<le> 11"
  shows "MakeDay y (m + 1) d = MakeDay (fst (monthAfter y m)) (snd (monthAfter y m)) d"
  using assms by (simp add: monthAfter_def MakeDay_month12)

lemma monthAfter_range:
  assumes "0 \<le> m" "m \<le> 11"
  shows "0 \<le> snd (monthAfter y m)" "snd (monthAfter y m) \<le> 11"
  using assms by (simp_all add: monthAfter_def)

lemma onDay_MakeDay_overflow:
  assumes m: "0 \<le> m" "m \<le> 11" and d: "DaysInMonth y m < d" "d \<le> 31"
  shows "onDay (MakeDate (MakeDay y m d) 0) (fst (monthAfter y m)) (snd (monthAfter y m))
           (d - DaysInMonth y m)"
proof -
  let ?y = "fst (monthAfter y m)" and ?m = "snd (monthAfter y m)"
  have "MakeDay y m d = MakeDay y m (DaysInMonth y m + (d - DaysInMonth y m))" by simp
  also have "\<dots> = MakeDay y (m + 1) (d - DaysInMonth y m)" by (rule MakeDay_overflow[OF m])
  also have "\<dots> = MakeDay ?y ?m (d - DaysInMonth y m)" by (rule MakeDay_monthAfter[OF m])
  finally have e: "MakeDay y m d = MakeDay ?y ?m (d - DaysInMonth y m)" .
  have "d - DaysInMonth y m \<le> 3" using d DaysInMonth_range(1)[OF m, of y] by linarith
  then have "d - DaysInMonth y m \<le> DaysInMonth ?y ?m"
    using DaysInMonth_range(1)[OF monthAfter_range[OF m], of ?y y] by linarith
  moreover have "1 \<le> d - DaysInMonth y m" using d by simp
  ultimately show ?thesis
    unfolding e using monthAfter_range[OF m, of y] by (intro onDay_MakeDay) auto
qed

lemma newDate_plain:
  "\<not> (0 \<le> y \<and> y \<le> 99) \<Longrightarrow> newDate y m d = MakeDate (MakeDay y m d) 0"
  by (auto simp: newDate_def)

lemma getMonth_range: "0 \<le> getMonth t" "getMonth t \<le> 11"
  using MonthFromTime_range by (simp_all add: getMonth_def)

lemma targetMonth_range: "0 \<le> snd (targetMonth today day)" "snd (targetMonth today day) \<le> 11"
  using getMonth_range[of today]
    monthAfter_range[OF getMonth_range, where t1 = today and y = "getFullYear today"]
  by (auto simp: targetMonth_def)

lemma payDayDate_MakeDay:
  assumes "\<not> (0 \<le> getFullYear today \<and> getFullYear today \<le> 99)"
  shows "payDayDate today payDay =
     MakeDate (MakeDay (fst (targetMonth today payDay)) (snd (targetMonth today payDay)) payDay) 0"
  using MakeDay_monthAfter[OF getMonth_range, where t1 = today and y = "getFullYear today" and d = payDay]
  by (simp add: payDayDate_def targetMonth_def newDate_plain[OF assms] Let_def)

lemma payDayDate_onDay:
  assumes y: "\<not> (0 \<le> getFullYear today \<and> getFullYear today \<le> 99)"
    and p: "1 \<le> payDay" "payDay \<le> 31"
  shows "payDay \<le> DaysInMonth (fst (targetMonth today payDay)) (snd (targetMonth today payDay))
     \<Longrightarrow> onDay (payDayDate today payDay)
           (fst (targetMonth today payDay)) (snd (targetMonth today payDay)) payDay"
    and "DaysInMonth (fst (targetMonth today payDay)) (snd (targetMonth today payDay)) < payDay
     \<Longrightarrow> onDay (payDayDate today payDay)
           (fst (monthAfter (fst (targetMonth today payDay)) (snd (targetMonth today payDay))))
           (snd (monthAfter (fst (targetMonth today payDay)) (snd (targetMonth today payDay))))
           (payDay - DaysInMonth (fst (targetMonth today payDay)) (snd (targetMonth today payDay)))"
  unfolding payDayDate_MakeDay[OF y]
  using p targetMonth_range[of today payDay]
  by (auto intro: onDay_MakeDay onDay_MakeDay_overflow)

lemma getDate_range: "1 \<le> getDate t" "getDate t \<le> DaysInMonth (getFullYear t) (getMonth t)"
  using DateFromTime_range by (simp_all add: getDate_def getFullYear_def getMonth_def)

lemma expenseDate_eq_payDayDate:
  assumes y: "\<not> (0 \<le> getFullYear today \<and> getFullYear today \<le> 99)" and d: "1 \<le> d"
  shows "expenseDate today d = payDayDate today d"
proof (cases "d \<le> getDate today")
  case True
  let ?e = "newDate (getFullYear today) (getMonth today) d"
  have e: "?e = MakeDate (MakeDay (getFullYear today) (getMonth today) d) 0"
    by (rule newDate_plain[OF y])
  have "d \<le> DaysInMonth (getFullYear today) (getMonth today)"
    using True getDate_range(2)[of today] by linarith
  then have o: "onDay ?e (getFullYear today) (getMonth today) d"
    unfolding e using d getMonth_range[of today] by (intro onDay_MakeDay) auto
  then have "setMonth ?e (getMonth ?e + 1)
      = MakeDate (MakeDay (getFullYear today) (getMonth today + 1) d) 0"
    by (simp add: setMonth_def onDay_def getFullYear_def getMonth_def getDate_def)
  also have "\<dots> = newDate (getFullYear today) (getMonth today + 1) d"
    by (rule newDate_plain[OF y, symmetric])
  finally show ?thesis using True by (simp add: expenseDate_def payDayDate_def Let_def)
next
  case False
  then show ?thesis by (simp add: expenseDate_def payDayDate_def Let_def)
qed

section \<open>The weekly loops\<close>

lemma Day_add: "Day (t + n * MS_PER_DAY) = Day t + n"
  unfolding Day_def using MS_PER_DAY_pos by simp

lemma TimeWithinDay_add: "TimeWithinDay (t + n * MS_PER_DAY) = TimeWithinDay t"
  unfolding TimeWithinDay_def by simp

lemma getDay_add: "getDay (t + n * MS_PER_DAY) = (getDay t + n) mod 7"
  unfolding getDay_def WeekDay_def Day_add by (simp add: mod_simps algebra_simps)

lemma getDay_range: "0 \<le> getDay t" "getDay t \<le> 6"
  unfolding getDay_def WeekDay_def by simp_all

lemma findNextOccurrence_step:
  "findNextOccurrence targetDay today d =
     (if Val (getDay d) \<noteq> targetDay \<or> d \<le> today
      then findNextOccurrence targetDay today (d + MS_PER_DAY)
      else Some d)"
  using setDate_add[of d 1] by (subst findNextOccurrence.simps) simp

lemma countOccurrences_step:
  "countOccurrences p d occ =
     (if d < p then countOccurrences p (d + 7 * MS_PER_DAY) (occ + 1) else Some occ)"
  using setDate_add[of d 7] by (subst countOccurrences.simps) (simp add: DAYS_IN_WEEK_def)

lemma daysToNext_range: "1 \<le> daysToNext g w" "daysToNext g w \<le> 7"
  unfolding daysToNext_def by simp_all

lemma daysToNext_hit:
  assumes "0 \<le> w" "w \<le> 6"
  shows "(g + daysToNext g w) mod 7 = w"
proof -
  have "(g + daysToNext g w) mod 7 = (g + ((w - g - 1) mod 7 + 1)) mod 7"
    by (simp add: daysToNext_def)
  also have "\<dots> = ((g + 1) + (w - g - 1) mod 7) mod 7"
    by (simp add: algebra_simps)
  also have "\<dots> = ((g + 1) + (w - g - 1)) mod 7"
    by (rule mod_add_right_eq)
  also have "\<dots> = w mod 7" by simp
  also have "\<dots> = w" using assms by simp
  finally show ?thesis .
qed

lemma daysToNext_first:
  assumes "1 \<le> j" "j < daysToNext g w"
  shows "(g + j) mod 7 \<noteq> w"
proof
  assume h: "(g + j) mod 7 = w"
  have j: "0 \<le> j - 1" "j - 1 < 7" using assms daysToNext_range(2)[of g w] by linarith+
  have "(w - g - 1) mod 7 = ((g + j) mod 7 - g - 1) mod 7" using h by simp
  also have "\<dots> = ((g + j) mod 7 + (- g - 1)) mod 7"
    by (rule arg_cong[where f = "\<lambda>x. x mod 7"]) linarith
  also have "\<dots> = ((g + j) + (- g - 1)) mod 7" by (rule mod_add_left_eq)
  also have "\<dots> = (j - 1) mod 7" by simp
  also have "\<dots> = j - 1" using j by simp
  finally have "daysToNext g w = j" by (simp add: daysToNext_def)
  with assms(2) show False by simp
qed

lemma findNextOccurrence_from:
  fixes n :: nat
  assumes w: "0 \<le> w" "w \<le> 6" and n: "int n \<le> daysToNext (getDay today) w"
  shows "findNextOccurrence (Val w) today
           (today + (daysToNext (getDay today) w - int n) * MS_PER_DAY)
         = Some (today + daysToNext (getDay today) w * MS_PER_DAY)"
  using n
proof (induction n)
  case 0
  let ?k = "daysToNext (getDay today) w"
  have "getDay (today + ?k * MS_PER_DAY) = w"
    by (simp add: getDay_add daysToNext_hit[OF w])
  moreover have "today < today + ?k * MS_PER_DAY"
    using daysToNext_range(1)[of "getDay today" w] MS_PER_DAY_pos by simp
  ultimately show ?case
    by (subst findNextOccurrence_step) simp
next
  case (Suc n)
  let ?k = "daysToNext (getDay today) w"
  let ?j = "?k - int (Suc n)"
  have j: "0 \<le> ?j" "?j < ?k" using Suc.prems by simp_all
  have c: "Val (getDay (today + ?j * MS_PER_DAY)) \<noteq> Val w \<or> today + ?j * MS_PER_DAY \<le> today"
  proof (cases "?j = 0")
    case True
    then show ?thesis by simp
  next
    case False
    then have "1 \<le> ?j" using j by linarith
    then have "(getDay today + ?j) mod 7 \<noteq> w" using j(2) by (rule daysToNext_first)
    then show ?thesis by (simp add: getDay_add)
  qed
  have s: "today + ?j * MS_PER_DAY + MS_PER_DAY = today + (?k - int n) * MS_PER_DAY"
    by (simp add: algebra_simps)
  have "findNextOccurrence (Val w) today (today + ?j * MS_PER_DAY)
      = findNextOccurrence (Val w) today (today + ?j * MS_PER_DAY + MS_PER_DAY)"
    using c by (subst findNextOccurrence_step) simp
  also have "\<dots> = Some (today + ?k * MS_PER_DAY)"
    unfolding s using Suc by simp
  finally show ?case .
qed

lemma findNextOccurrence_valid:
  assumes "0 \<le> w" "w \<le> 6"
  shows "findNextOccurrence (Val w) today today
         = Some (today + daysToNext (getDay today) w * MS_PER_DAY)"
proof -
  let ?k = "daysToNext (getDay today) w"
  have "int (nat ?k) \<le> ?k" "?k - int (nat ?k) = 0"
    using daysToNext_range(1)[of "getDay today" w] by simp_all
  then show ?thesis
    using findNextOccurrence_from[OF assms, of "nat ?k" today] by simp
qed

lemma findNextOccurrence_sound:
  assumes "findNextOccurrence targetDay today d = Some r"
  shows "Val (getDay r) = targetDay \<and> today < r"
proof (rule findNextOccurrence.raw_induct
    [where P = "\<lambda>tg td d r. Val (getDay r) = tg \<and> td < r", OF _ assms])
  fix f tg td d r
  assume IH: "\<And>tg td d r. f tg td d = Some r \<Longrightarrow> Val (getDay r) = tg \<and> td < r"
    and step: "(if Val (getDay d) \<noteq> tg \<or> d \<le> td
                then f tg td (setDate d (getDate d + 1)) else Some d) = Some r"
  show "Val (getDay r) = tg \<and> td < r"
  proof (cases "Val (getDay d) \<noteq> tg \<or> d \<le> td")
    case True
    then have "f tg td (setDate d (getDate d + 1)) = Some r" using step by simp
    then show ?thesis by (rule IH)
  next
    case False
    then have "d = r" using step by simp
    with False show ?thesis by auto
  qed
qed

lemma findNextOccurrence_invalid:
  assumes "targetDay = NaN \<or> (\<exists>w. targetDay = Val w \<and> (w < 0 \<or> 6 < w))"
  shows "findNextOccurrence targetDay today d = None"
proof (cases "findNextOccurrence targetDay today d")
  case None
  then show ?thesis .
next
  case (Some r)
  then have "Val (getDay r) = targetDay" using findNextOccurrence_sound by blast
  with assms getDay_range[of r] show ?thesis by auto
qed

lemma midnight_less:
  assumes "TimeWithinDay p = 0"
  shows "d < p \<longleftrightarrow> Day d < Day p"
proof -
  have p: "p = Day p * MS_PER_DAY" using MakeDate_Day[of p] assms by (simp add: MakeDate_def)
  have d: "d = Day d * MS_PER_DAY + TimeWithinDay d" using MakeDate_Day[of d] by (simp add: MakeDate_def)
  note r = TimeWithinDay_range[of d]
  show ?thesis
  proof
    assume "d < p"
    then have "Day d * MS_PER_DAY < Day p * MS_PER_DAY" using p d r by linarith
    then show "Day d < Day p" using MS_PER_DAY_pos by (simp add: mult_less_cancel_right)
  next
    assume "Day d < Day p"
    then have "Day d + 1 \<le> Day p" by simp
    then have "(Day d + 1) * MS_PER_DAY \<le> Day p * MS_PER_DAY"
      using MS_PER_DAY_pos by (simp add: mult_le_cancel_right)
    then show "d < p" using p d r by (simp add: algebra_simps)
  qed
qed

lemma weeksBefore_step:
  assumes "first < p"
  shows "1 + weeksBefore (first + 7) p = weeksBefore first p"
proof -
  have "(p - first + 6) div 7 = ((p - first - 1) + 7) div 7" by simp
  also have "\<dots> = (p - first - 1) div 7 + 1" by (rule div_add_self2) simp
  finally have e: "(p - first + 6) div 7 = (p - first - 1) div 7 + 1" .
  have "0 \<le> (p - first - 1) div 7" using assms by (simp add: pos_imp_zdiv_nonneg_iff)
  moreover have "p - (first + 7) + 6 = p - first - 1" by simp
  ultimately show ?thesis unfolding weeksBefore_def e by simp
qed

lemma countOccurrences_midnight:
  assumes "TimeWithinDay p = 0"
  shows "countOccurrences p d occ = Some (occ + weeksBefore (Day d) (Day p))"
proof (induction "nat (Day p - Day d)" arbitrary: d occ rule: less_induct)
  case less
  show ?case
  proof (cases "d < p")
    case True
    then have lt: "Day d < Day p" using midnight_less[OF assms] by simp
    have D: "Day (d + 7 * MS_PER_DAY) = Day d + 7" by (rule Day_add)
    have "nat (Day p - Day (d + 7 * MS_PER_DAY)) < nat (Day p - Day d)"
      unfolding D using lt by simp
    then have "countOccurrences p (d + 7 * MS_PER_DAY) (occ + 1)
        = Some (occ + 1 + weeksBefore (Day (d + 7 * MS_PER_DAY)) (Day p))"
      by (rule less)
    moreover have "1 + weeksBefore (Day d + 7) (Day p) = weeksBefore (Day d) (Day p)"
      using lt by (rule weeksBefore_step)
    ultimately show ?thesis
      using True unfolding D by (subst countOccurrences_step) simp
  next
    case False
    then have "Day p \<le> Day d" using midnight_less[OF assms] by simp
    then have "weeksBefore (Day d) (Day p) = 0"
      unfolding weeksBefore_def by simp
    then show ?thesis using False by (subst countOccurrences_step) simp
  qed
qed

lemma weeksBefore_iff:
  assumes "0 \<le> j"
  shows "first + 7 * j < p \<longleftrightarrow> j < weeksBefore first p"
proof -
  note b = int_div_bounds[of 7 "p - first + 6"]
  show ?thesis
  proof (cases "first < p")
    case True
    then have "0 \<le> (p - first + 6) div 7" by (simp add: pos_imp_zdiv_nonneg_iff)
    then have "weeksBefore first p = (p - first + 6) div 7" by (simp add: weeksBefore_def)
    then show ?thesis using b by auto
  next
    case False
    then have "(p - first + 6) div 7 \<le> 0" using b by simp
    then have "weeksBefore first p = 0" by (simp add: weeksBefore_def)
    then show ?thesis using False assms by auto
  qed
qed

section \<open>Closed forms and dependence on the calendar date only\<close>

lemma TimeWithinDay_newDate: "TimeWithinDay (newDate y m d) = 0"
  unfolding newDate_def using MS_PER_DAY_pos by (simp add: TimeWithinDay_MakeDate)

lemma payDayDate_midnight: "TimeWithinDay (payDayDate today payDay) = 0"
  by (simp add: payDayDate_def Let_def TimeWithinDay_newDate)

lemma ceilDays_midnight:
  assumes "TimeWithinDay p = 0"
  shows "ceilDays (p - t) = Day p - Day t"
proof -
  have p: "p = Day p * MS_PER_DAY" using MakeDate_Day[of p] assms by (simp add: MakeDate_def)
  have "- (p - t) = t + (- Day p) * MS_PER_DAY" using p by simp
  then have "(- (p - t)) div MS_PER_DAY = Day (t + (- Day p) * MS_PER_DAY)"
    by (simp only: Day_def)
  also have "\<dots> = Day t + (- Day p)" by (rule Day_add)
  finally show ?thesis by (simp add: ceilDays_def)
qed

lemma getters_cong:
  assumes "Day t1 = Day t2"
  shows "getFullYear t1 = getFullYear t2" "getMonth t1 = getMonth t2"
    "getDate t1 = getDate t2" "getDay t1 = getDay t2"
  using Day_depends[OF assms]
  by (simp_all add: getFullYear_def getMonth_def getDate_def getDay_def)

lemma payDayDate_cong:
  assumes "Day t1 = Day t2"
  shows "payDayDate t1 payDay = payDayDate t2 payDay"
  by (simp add: payDayDate_def getters_cong[OF assms])

lemma daysUntilPayday_closed:
  "daysUntilPayday today payDay =
     (if getDate today = payDay \<and> getMonth (payDayDate today payDay) = getMonth today then 1
      else Day (payDayDate today payDay) - Day today)"
  by (simp add: daysUntilPayday_def Let_def ceilDays_midnight[OF payDayDate_midnight])

lemma daysUntilPayday_cong:
  assumes "Day t1 = Day t2"
  shows "daysUntilPayday t1 payDay = daysUntilPayday t2 payDay"
  unfolding daysUntilPayday_closed payDayDate_cong[OF assms] getters_cong[OF assms] assms ..

lemma dailyExpenses_cong:
  assumes "Day t1 = Day t2"
  shows "dailyExpenses t1 payDay items = dailyExpenses t2 payDay items"
proof -
  have "dailyStep t1 payDay = dailyStep t2 payDay"
    by (intro ext) (simp add: dailyStep_def daysUntilPayday_cong[OF assms])
  then show ?thesis by (simp add: dailyExpenses_def)
qed

lemma weeklyStep_closed:
  "weeklyStep today payDay tot expense =
     (case expense ''weekly-day'' of
        None \<Rightarrow> Some tot
      | Some value \<Rightarrow>
          if \<not> truthy value then Some tot
          else
            (case parseInt value of
               NaN \<Rightarrow> None
             | Val w \<Rightarrow>
                 if 0 \<le> w \<and> w \<le> 6
                 then Some (add tot (mul (getExpenseAmount expense ''weekly-amount'')
                        (Val (real_of_int
                          (weeksBefore (Day today + daysToNext (getDay today) w)
                             (Day (payDayDate today payDay)))))))
                 else None))"
proof (cases "expense ''weekly-day''")
  case None
  then show ?thesis by (simp add: weeklyStep_def)
next
  case (Some v)
  show ?thesis
  proof (cases "truthy v")
    case False
    then show ?thesis using Some by (simp add: weeklyStep_def)
  next
    case True
    show ?thesis
    proof (cases "parseInt v")
      case NaN
      then have "findNextOccurrence (parseInt v) today today = None"
        by (intro findNextOccurrence_invalid) simp
      then show ?thesis using Some True NaN by (simp add: weeklyStep_def)
    next
      case (Val w)
      show ?thesis
      proof (cases "0 \<le> w \<and> w \<le> 6")
        case False
        then have "findNextOccurrence (parseInt v) today today = None"
          using Val by (intro findNextOccurrence_invalid) auto
        then show ?thesis using Some True Val False by (simp add: weeklyStep_def)
      next
        case valid: True
        let ?first = "today + daysToNext (getDay today) w * MS_PER_DAY"
        have f: "findNextOccurrence (parseInt v) today today = Some ?first"
          using valid Val by (simp add: findNextOccurrence_valid)
        have c: "countOccurrences (payDayDate today payDay) ?first 0
            = Some (weeksBefore (Day today + daysToNext (getDay today) w)
                     (Day (payDayDate today payDay)))"
          using countOccurrences_midnight[OF payDayDate_midnight, of today payDay ?first 0]
          by (simp add: Day_add)
        show ?thesis using Some True Val valid f c by (simp add: weeklyStep_def)
      qed
    qed
  qed
qed

lemma weeklyExpenses_cong:
  assumes "Day t1 = Day t2"
  shows "weeklyExpenses t1 payDay items = weeklyExpenses t2 payDay items"
proof -
  have "weeklyStep t1 payDay = weeklyStep t2 payDay"
    unfolding weeklyStep_closed payDayDate_cong[OF assms] getters_cong(4)[OF assms] assms
    by (intro ext) (rule refl)
  then show ?thesis by (simp add: weeklyExpenses_def)
qed

lemma expenseDate_cong:
  assumes "Day t1 = Day t2"
  shows "expenseDate t1 d = expenseDate t2 d"
  by (simp add: expenseDate_def getters_cong[OF assms])

lemma monthlyExpenses_cong:
  assumes "Day t1 = Day t2"
  shows "monthlyExpenses t1 payDay items = monthlyExpenses t2 payDay items"
proof -
  have "monthlyStep t1 payDay = monthlyStep t2 payDay"
    unfolding monthlyStep_def expenseDate_cong[OF assms] payDayDate_cong[OF assms]
    by (intro ext) (rule refl)
  then show ?thesis by (simp add: monthlyExpenses_def)
qed

lemma calculateExpensesUntilPayday_cong:
  assumes "Day t1 = Day t2"
  shows "calculateExpensesUntilPayday t1 payDay els = calculateExpensesUntilPayday t2 payDay els"
  unfolding calculateExpensesUntilPayday_def dailyExpenses_cong[OF assms]
    weeklyExpenses_cong[OF assms] monthlyExpenses_cong[OF assms] ..

lemma funpow_nextDay:
  "((\<lambda>d. setDate d (getDate d + 1)) ^^ k) t = t + int k * MS_PER_DAY"
proof (induction k)
  case 0
  show ?case by simp
next
  case (Suc k)
  have "((\<lambda>d. setDate d (getDate d + 1)) ^^ Suc k) t
      = setDate (t + int k * MS_PER_DAY) (getDate (t + int k * MS_PER_DAY) + 1)"
    using Suc by simp
  also have "\<dots> = t + int k * MS_PER_DAY + 1 * MS_PER_DAY" by (rule setDate_add)
  finally show ?case by (simp add: algebra_simps)
qed

lemma weeksBefore_bound:
  assumes "1 \<le> k"
  shows "7 * weeksBefore (d + k) p \<le> max 0 (p - d + 5)"
proof -
  note b = int_div_bounds(1)[of 7 "p - (d + k) + 6"]
  show ?thesis using b assms by (auto simp: weeksBefore_def max_def)
qed

lemma weeksBefore_nonneg: "0 \<le> weeksBefore first p"
  by (simp add: weeksBefore_def)

section \<open>Facts about 2024-01-10\<close>

lemma Day_offset:
  assumes "0 \<le> t" "t < MS_PER_DAY"
  shows "Day (c * MS_PER_DAY + t) = c"
  using Day_MakeDate[OF assms, of c] by (simp add: MakeDate_def)

lemma Day_jan10:
  assumes "0 \<le> t" "t < MS_PER_DAY"
  shows "Day (1704844800000 + t) = Day 1704844800000"
proof -
  have "Day (1704844800000 + t) = Day (19732 * MS_PER_DAY + t)"
    by (simp add: MS_PER_DAY_def)
  also have "\<dots> = 19732" by (rule Day_offset[OF assms])
  also have "\<dots> = Day 1704844800000" by (simp add: Day_def MS_PER_DAY_def)
  finally show ?thesis .
qed

lemma jan10_fields:
  "getFullYear 1704844800000 = 2024" "getMonth 1704844800000 = 0"
  "getDate 1704844800000 = 10" "getDay 1704844800000 = 3"
  by code_simp+

lemma jan10_payday: "payDayDate 1704844800000 25 = 1706140800000"
  by code_simp

lemma jan25_onDay: "onDay 1706140800000 2024 0 25"
  by code_simp

lemma jan10_daily:
  "dailyExpenses 1704844800000 25 [[''daily-amount'' \<mapsto> Text (Val 2) (Val 2)]] = Val 30"
  by code_simp

lemma jan10_weekly:
  "weeklyExpenses 1704844800000 25
     [[''weekly-amount'' \<mapsto> Text (Val 10) (Val 10), ''weekly-day'' \<mapsto> Text (Val 3) (Val 3)]]
   = Some (Val 20)"
  by code_simp

lemma jan10_monthly:
  "monthlyExpenses 1704844800000 25
     [[''monthly-amount'' \<mapsto> Text (Val 50) (Val 50), ''monthly-day'' \<mapsto> Text (Val 20) (Val 20)]]
   = Val 50"
  by code_simp

lemma jan10_expenseDate: "expenseDate 1704844800000 20 = 1705708800000"
  by code_simp

lemma jan20_onDay: "onDay 1705708800000 2024 0 20"
  by code_simp

lemma jan10_total:
  "calculateExpensesUntilPayday 1704844800000 25
     \<lparr>monthlyContainer =
        [[''monthly-amount'' \<mapsto> Text (Val 50) (Val 50), ''monthly-day'' \<mapsto> Text (Val 20) (Val 20)]],
      weeklyContainer =
        [[''weekly-amount'' \<mapsto> Text (Val 10) (Val 10), ''weekly-day'' \<mapsto> Text (Val 3) (Val 3)]],
      dailyContainer = [[''daily-amount'' \<mapsto> Text (Val 2) (Val 2)]]\<rparr>
   = Some (Val 100)"
  by code_simp

lemma jan17_24_fields:
  "getDate (1704844800000 + 7 * MS_PER_DAY) = 17" "getMonth (1704844800000 + 7 * MS_PER_DAY) = 0"
  "getDate (1704844800000 + 14 * MS_PER_DAY) = 24" "getMonth (1704844800000 + 14 * MS_PER_DAY) = 0"
  by code_simp+

section \<open>The pay day on today's day of the month\<close>

lemma snd_monthAfter_neq:
  assumes "0 \<le> m" "m \<le> 11"
  shows "snd (monthAfter y m) \<noteq> m"
    "snd (monthAfter (fst (monthAfter y m)) (snd (monthAfter y m))) \<noteq> m"
  using assms by (auto simp: monthAfter_def)

lemma same_day_payDayDate:
  assumes s: "getDate today = payDay"
    and y: "\<not> (0 \<le> getFullYear today \<and> getFullYear today \<le> 99)"
  shows "getMonth (payDayDate today payDay) \<noteq> getMonth today"
    and "Day (payDayDate today payDay) - Day today
          = DaysInMonth (getFullYear today) (getMonth today)"
proof -
  let ?y = "getFullYear today" and ?m = "getMonth today"
  note m = getMonth_range[of today]
  have p: "1 \<le> payDay" "payDay \<le> DaysInMonth ?y ?m" "payDay \<le> 31"
    using s getDate_range[of today] DaysInMonth_range(2)[OF m, of ?y] by auto
  have t: "targetMonth today payDay = monthAfter ?y ?m"
    using s by (simp add: targetMonth_def)
  show "getMonth (payDayDate today payDay) \<noteq> ?m"
  proof (cases "payDay \<le> DaysInMonth (fst (monthAfter ?y ?m)) (snd (monthAfter ?y ?m))")
    case True
    then have "onDay (payDayDate today payDay) (fst (monthAfter ?y ?m)) (snd (monthAfter ?y ?m)) payDay"
      using payDayDate_onDay(1)[OF y p(1,3)] unfolding t by simp
    then show ?thesis using snd_monthAfter_neq(1)[OF m, of ?y] by (simp add: onDay_def)
  next
    case False
    then have "onDay (payDayDate today payDay)
        (fst (monthAfter (fst (monthAfter ?y ?m)) (snd (monthAfter ?y ?m))))
        (snd (monthAfter (fst (monthAfter ?y ?m)) (snd (monthAfter ?y ?m))))
        (payDay - DaysInMonth (fst (monthAfter ?y ?m)) (snd (monthAfter ?y ?m)))"
      using payDayDate_onDay(2)[OF y p(1,3)] unfolding t by simp
    then show ?thesis using snd_monthAfter_neq(2)[OF m, of ?y] by (simp add: onDay_def)
  qed
  have "Day (payDayDate today payDay) = MakeDay ?y (?m + 1) payDay"
    using s MS_PER_DAY_pos by (simp add: payDayDate_def newDate_plain[OF y] Day_MakeDate)
  also have "\<dots> = MakeDay ?y ?m (DaysInMonth ?y ?m + payDay)"
    by (rule MakeDay_overflow[OF m, symmetric])
  also have "\<dots> = MakeDay ?y ?m payDay + DaysInMonth ?y ?m"
    using m by (simp add: MakeDay_in_year)
  also have "MakeDay ?y ?m payDay = Day today"
    using MakeDay_fields[of today "DateFromTime today"] s
    by (simp add: getFullYear_def getMonth_def getDate_def)
  finally show "Day (payDayDate today payDay) - Day today = DaysInMonth ?y ?m" by simp
qed

section \<open>The distance to the payday\<close>

lemma payday_distance:
  assumes p: "1 \<le> payDay" "payDay \<le> 31"
    and y: "\<not> (0 \<le> getFullYear today \<and> getFullYear today \<le> 99)"
  shows "1 \<le> Day (payDayDate today payDay) - Day today"
    and "Day (payDayDate today payDay) - Day today \<le> 31"
proof -
  let ?y = "getFullYear today" and ?m = "getMonth today"
  note m = getMonth_range[of today]
  note c = getDate_range[of today]
  note dim = DaysInMonth_range[OF m, of ?y]
  have T: "Day today = MakeDay ?y ?m (getDate today)"
    using MakeDay_fields[of today "DateFromTime today"]
    by (simp add: getFullYear_def getMonth_def getDate_def)
  have D: "Day (payDayDate today payDay) - Day today
      = (if payDay \<le> getDate today then DaysInMonth ?y ?m else 0) + payDay - getDate today"
  proof (cases "payDay \<le> getDate today")
    case True
    have "Day (payDayDate today payDay) = MakeDay ?y (?m + 1) payDay"
      using True MS_PER_DAY_pos by (simp add: payDayDate_def newDate_plain[OF y] Day_MakeDate)
    also have "\<dots> = MakeDay ?y ?m (DaysInMonth ?y ?m + payDay)"
      by (rule MakeDay_overflow[OF m, symmetric])
    finally show ?thesis using True m unfolding T by (simp add: MakeDay_in_year)
  next
    case False
    have "Day (payDayDate today payDay) = MakeDay ?y ?m payDay"
      using False MS_PER_DAY_pos by (simp add: payDayDate_def newDate_plain[OF y] Day_MakeDate)
    then show ?thesis using False m unfolding T by (simp add: MakeDay_in_year)
  qed
  show "1 \<le> Day (payDayDate today payDay) - Day today"
    unfolding D using p c dim by (auto split: if_splits)
  show "Day (payDayDate today payDay) - Day today \<le> 31"
    unfolding D using p c dim by (auto split: if_splits)
qed

lemma weeksBefore_le:
  assumes "1 \<le> k" "p - d \<le> 31"
  shows "weeksBefore (d + k) p \<le> 5"
  using weeksBefore_bound[OF assms(1), of d p] assms(2) by (simp add: max_def split: if_splits)

lemma occurrence_before_payday:
  "today + k * MS_PER_DAY + j * (7 * MS_PER_DAY) < payDayDate today payDay
   \<longleftrightarrow> Day today + k + 7 * j < Day (payDayDate today payDay)"
proof -
  have e: "today + k * MS_PER_DAY + j * (7 * MS_PER_DAY) = today + (k + 7 * j) * MS_PER_DAY"
    by (simp add: algebra_simps)
  have "today + (k + 7 * j) * MS_PER_DAY < payDayDate today payDay
      \<longleftrightarrow> Day (today + (k + 7 * j) * MS_PER_DAY) < Day (payDayDate today payDay)"
    by (rule midnight_less[OF payDayDate_midnight])
  also have "Day (today + (k + 7 * j) * MS_PER_DAY) = Day today + (k + 7 * j)"
    by (rule Day_add)
  finally show ?thesis unfolding e by (simp add: add.assoc)
qed

section \<open>The projection as a sum over the records\<close>

lemma add_zero_right: "add tot (Val 0) = tot"
  by (cases tot) simp_all

lemma weeklyStep_contribution:
  assumes "weeklyDayOk expense"
  shows "weeklyStep today payDay tot expense = Some (add tot (weeklyContribution today payDay expense))"
  using assms
  by (auto simp: weeklyStep_closed weeklyContribution_def weeklyDayOk_def occurrencesBefore_def
      add_zero_right split: option.splits fieldValue.splits js.splits)

lemma reduceOption_weeklyStep:
  assumes "\<forall>e \<in> set items. weeklyDayOk e"
  shows "reduceOption (weeklyStep today payDay) tot items
         = Some (foldl add tot (map (weeklyContribution today payDay) items))"
  using assms
proof (induction items arbitrary: tot)
  case Nil
  show ?case by simp
next
  case (Cons e items)
  then show ?case by (simp add: weeklyStep_contribution)
qed

lemma weeklyExpenses_sum:
  assumes "\<forall>e \<in> set items. weeklyDayOk e"
  shows "weeklyExpenses today payDay items
         = Some (sumNumbers (map (weeklyContribution today payDay) items))"
  using reduceOption_weeklyStep[OF assms] by (simp add: weeklyExpenses_def sumNumbers_def)

lemma monthlyStep_included:
  "monthlyStep today payDay tot e
   = (if monthlyIncluded today payDay e then add tot (getExpenseAmount e ''monthly-amount'')
      else tot)"
  by (cases "dayOfMonthOf e") (simp_all add: monthlyStep_def monthlyIncluded_def)

lemma foldl_monthlyStep:
  "foldl (monthlyStep today payDay) tot items
   = foldl add tot (map (\<lambda>e. getExpenseAmount e ''monthly-amount'')
                      (filter (monthlyIncluded today payDay) items))"
proof (induction items arbitrary: tot)
  case Nil
  show ?case by simp
next
  case (Cons e items)
  have "foldl (monthlyStep today payDay) tot (e # items)
      = foldl (monthlyStep today payDay) (monthlyStep today payDay tot e) items"
    by simp
  also have "\<dots> = foldl add (monthlyStep today payDay tot e)
      (map (\<lambda>e. getExpenseAmount e ''monthly-amount'')
         (filter (monthlyIncluded today payDay) items))"
    by (rule Cons)
  also have "\<dots> = foldl add tot
      (map (\<lambda>e. getExpenseAmount e ''monthly-amount'')
         (filter (monthlyIncluded today payDay) (e # items)))"
    unfolding monthlyStep_included by simp
  finally show ?case .
qed

lemma monthlyExpenses_sum:
  "monthlyExpenses today payDay items
   = sumNumbers (map (\<lambda>e. getExpenseAmount e ''monthly-amount'')
                   (filter (monthlyIncluded today payDay) items))"
  by (simp add: monthlyExpenses_def sumNumbers_def foldl_monthlyStep)

lemma occurrencesBefore_nonneg: "0 \<le> occurrencesBefore today payDay w"
  by (simp add: occurrencesBefore_def weeksBefore_nonneg)

lemma calculate_weekly_sum:
  assumes "\<forall>e \<in> set (weeklyContainer els). weeklyDayOk e"
  shows "calculateExpensesUntilPayday today payDay els
       = Some (add (add (dailyExpenses today payDay (dailyContainer els))
                        (sumNumbers (map (weeklyContribution today payDay) (weeklyContainer els))))
                   (monthlyExpenses today payDay (monthlyContainer els)))"
  by (simp add: calculateExpensesUntilPayday_def weeklyExpenses_sum[OF assms])


section \<open>A zone of constant offset\<close>























section \<open>The monthly total\<close>

lemma foldl_entryTerm:
  "foldl (\<lambda>total (name, value). total + orZero (parseFloat value) * multiplierOrZero name) acc
     (filter (\<lambda>(name, value). suffix ''-amount'' name) formData)
   = acc + sum_list (map entryTerm formData)"
  by (induction formData arbitrary: acc) (auto simp: entryTerm_def)

lemma monthlyTotal_sum_list: "monthlyTotal formData = sum_list (map entryTerm formData)"
  by (simp add: monthlyTotal_def foldl_entryTerm)

lemma multiplierOrZero_simps:
  "multiplierOrZero ''monthly-amount'' = 1"
  "multiplierOrZero ''weekly-amount'' = 31 / 7"
  "multiplierOrZero ''daily-amount'' = 31"
  by (simp_all add: multiplierOrZero_def multipliers_def DAYS_IN_MONTH_def DAYS_IN_WEEK_def)

lemma multiplierOrZero_other:
  "name \<noteq> ''monthly-amount'' \<Longrightarrow> name \<noteq> ''weekly-amount'' \<Longrightarrow> name \<noteq> ''daily-amount''
   \<Longrightarrow> multiplierOrZero name = 0"
  by (simp add: multiplierOrZero_def multipliers_def)

lemma suffix_amount:
  "suffix ''-amount'' ''monthly-amount''" "suffix ''-amount'' ''weekly-amount''"
  "suffix ''-amount'' ''daily-amount''"
  by (simp_all add: suffix_to_prefix)

lemma orZero_case: "orZero x = (case x of NaN \<Rightarrow> 0 | Val a \<Rightarrow> a)"
  by (cases x) simp_all

lemma entryTerm_cases:
  "entryTerm (name, value) =
     (if name = ''monthly-amount'' then (case parseFloat value of NaN \<Rightarrow> 0 | Val a \<Rightarrow> a) * 1
      else if name = ''weekly-amount'' then (case parseFloat value of NaN \<Rightarrow> 0 | Val a \<Rightarrow> a) * (31 / 7)
      else if name = ''daily-amount'' then (case parseFloat value of NaN \<Rightarrow> 0 | Val a \<Rightarrow> a) * 31
      else 0)"
  by (simp add: entryTerm_def multiplierOrZero_simps multiplierOrZero_other suffix_amount orZero_case)


section \<open>The properties of the specification\<close>

subsection \<open>C1: the same-day override of the daily count\<close>

text \<open>
  C1. The specification: when today's day of the month equals the pay day, a daily
  expense of amount A adds exactly A to the total until payday, the number of days being
  forced to 1 whatever the time of day. The code does not do this. The guard of the override asks
  for \<open>currentDay === payDay\<close> and for a payday in the current month, and a pay day
  equal to today's day has already been moved to the following month. On 2024-01-25 at
  noon with pay day 25 the payday is 2024-02-25, the number of days is 31, and a daily
  expense of 2 adds 62.
\<close>

theorem same_day_override_dead:
  "getDate 1706184000000 = 25
   \<and> getMonth 1706184000000 = 0
   \<and> TimeWithinDay 1706184000000 = 43200000
   \<and> payDayDate 1706184000000 25 = 1708819200000
   \<and> getMonth (payDayDate 1706184000000 25) = 1
   \<and> daysUntilPayday 1706184000000 25 = 31
   \<and> calculateExpensesUntilPayday 1706184000000 25
        \<lparr>monthlyContainer = [], weeklyContainer = [],
         dailyContainer = [[''daily-amount'' \<mapsto> Text (Val 2) (Val 2)]]\<rparr>
      = Some (Val 62)"
  by code_simp


text \<open>
  More generally, when today's day of the month equals the pay day (and today's year is
  not one of 0 to 99), the number of days until payday is the number of days of the
  current month, 28 at least: the override never applies.
\<close>

theorem same_day_days:
  assumes "getDate today = payDay"
    and "\<not> (0 \<le> getFullYear today \<and> getFullYear today \<le> 99)"
  shows "daysUntilPayday today payDay = DaysInMonth (getFullYear today) (getMonth today)
       \<and> 28 \<le> daysUntilPayday today payDay"
  using same_day_payDayDate[OF assms]
    DaysInMonth_range(1)[OF getMonth_range, where t1 = today and y = "getFullYear today"]
  by (simp add: daysUntilPayday_closed)


theorem same_day_days_witness:
  "getDate 1706184000000 = 25
   \<and> \<not> (0 \<le> getFullYear 1706184000000 \<and> getFullYear 1706184000000 \<le> 99)
   \<and> daysUntilPayday 1706184000000 25 = 31"
proof -
  have h: "getDate 1706184000000 = 25"
    "\<not> (0 \<le> getFullYear 1706184000000 \<and> getFullYear 1706184000000 \<le> 99)"
    by code_simp+
  have d: "DaysInMonth (getFullYear 1706184000000) (getMonth 1706184000000) = 31"
    by code_simp
  show ?thesis using h same_day_days[OF h] unfolding d by blast
qed

subsection \<open>C2: the date of the payday\<close>

text \<open>
  C2, as amended. For a pay day from 1 to 31 (and today's year not one of 0 to 99, which
  the Date constructor reads as 1900 to 1999): when the pay day is after today's day of
  the month and the current month has that many days, the payday is midnight of that
  day of the current month; when the pay day is not after today's day and the following
  month has that many days, it is midnight of that day of the following month; and when
  the month it is taken in (\<open>targetMonth\<close>) is shorter than the pay day, the date runs
  over into the month after it, to the day numbered pay day minus the length of the
  month.
\<close>

theorem payDayDate_resolution:
  assumes "1 \<le> payDay" "payDay \<le> 31"
    and "\<not> (0 \<le> getFullYear today \<and> getFullYear today \<le> 99)"
  shows "(getDate today < payDay
            \<and> payDay \<le> DaysInMonth (getFullYear today) (getMonth today)
          \<longrightarrow> onDay (payDayDate today payDay) (getFullYear today) (getMonth today) payDay)
       \<and> (payDay \<le> getDate today
            \<and> payDay \<le> DaysInMonth (fst (monthAfter (getFullYear today) (getMonth today)))
                                     (snd (monthAfter (getFullYear today) (getMonth today)))
          \<longrightarrow> onDay (payDayDate today payDay)
                (fst (monthAfter (getFullYear today) (getMonth today)))
                (snd (monthAfter (getFullYear today) (getMonth today))) payDay)
       \<and> (DaysInMonth (fst (targetMonth today payDay)) (snd (targetMonth today payDay)) < payDay
          \<longrightarrow> onDay (payDayDate today payDay)
                (fst (monthAfter (fst (targetMonth today payDay)) (snd (targetMonth today payDay))))
                (snd (monthAfter (fst (targetMonth today payDay)) (snd (targetMonth today payDay))))
                (payDay - DaysInMonth (fst (targetMonth today payDay))
                                      (snd (targetMonth today payDay))))"
proof (intro conjI impI)
  assume a: "getDate today < payDay
      \<and> payDay \<le> DaysInMonth (getFullYear today) (getMonth today)"
  then have t: "targetMonth today payDay = (getFullYear today, getMonth today)"
    by (simp add: targetMonth_def)
  show "onDay (payDayDate today payDay) (getFullYear today) (getMonth today) payDay"
    using payDayDate_onDay(1)[OF assms(3,1,2)] a unfolding t by simp
next
  assume a: "payDay \<le> getDate today
      \<and> payDay \<le> DaysInMonth (fst (monthAfter (getFullYear today) (getMonth today)))
                               (snd (monthAfter (getFullYear today) (getMonth today)))"
  then have t: "targetMonth today payDay = monthAfter (getFullYear today) (getMonth today)"
    by (simp add: targetMonth_def)
  show "onDay (payDayDate today payDay)
          (fst (monthAfter (getFullYear today) (getMonth today)))
          (snd (monthAfter (getFullYear today) (getMonth today))) payDay"
    using payDayDate_onDay(1)[OF assms(3,1,2)] a unfolding t by simp
next
  assume "DaysInMonth (fst (targetMonth today payDay)) (snd (targetMonth today payDay)) < payDay"
  then show "onDay (payDayDate today payDay)
      (fst (monthAfter (fst (targetMonth today payDay)) (snd (targetMonth today payDay))))
      (snd (monthAfter (fst (targetMonth today payDay)) (snd (targetMonth today payDay))))
      (payDay - DaysInMonth (fst (targetMonth today payDay)) (snd (targetMonth today payDay)))"
    by (rule payDayDate_onDay(2)[OF assms(3,1,2)])
qed

theorem payDayDate_resolution_witness:
  "((1::int) \<le> 25 \<and> (25::int) \<le> 31
    \<and> \<not> (0 \<le> getFullYear 1704844800000 \<and> getFullYear 1704844800000 \<le> 99)
    \<and> getDate 1704844800000 < 25
    \<and> 25 \<le> DaysInMonth (getFullYear 1704844800000) (getMonth 1704844800000)
    \<and> onDay (payDayDate 1704844800000 25) 2024 0 25)
   \<and> (\<not> (0 \<le> getFullYear 1706140800000 \<and> getFullYear 1706140800000 \<le> 99)
    \<and> 25 \<le> getDate 1706140800000
    \<and> 25 \<le> DaysInMonth (fst (monthAfter (getFullYear 1706140800000) (getMonth 1706140800000)))
                          (snd (monthAfter (getFullYear 1706140800000) (getMonth 1706140800000)))
    \<and> onDay (payDayDate 1706140800000 25) 2024 1 25)
   \<and> ((1::int) \<le> 31 \<and> (31::int) \<le> 31
    \<and> \<not> (0 \<le> getFullYear 1707523200000 \<and> getFullYear 1707523200000 \<le> 99)
    \<and> DaysInMonth (fst (targetMonth 1707523200000 31)) (snd (targetMonth 1707523200000 31)) < 31
    \<and> onDay (payDayDate 1707523200000 31) 2024 2 2)"
proof -
  have h1: "(1::int) \<le> 25" "(25::int) \<le> 31" "(1::int) \<le> 31" "(31::int) \<le> 31" by simp_all
  have ya: "\<not> (0 \<le> getFullYear 1704844800000 \<and> getFullYear 1704844800000 \<le> 99)" by code_simp
  have yb: "\<not> (0 \<le> getFullYear 1706140800000 \<and> getFullYear 1706140800000 \<le> 99)" by code_simp
  have yc: "\<not> (0 \<le> getFullYear 1707523200000 \<and> getFullYear 1707523200000 \<le> 99)" by code_simp
  have a: "getDate 1704844800000 < 25
    \<and> 25 \<le> DaysInMonth (getFullYear 1704844800000) (getMonth 1704844800000)" by code_simp
  have b: "25 \<le> getDate 1706140800000
    \<and> 25 \<le> DaysInMonth (fst (monthAfter (getFullYear 1706140800000) (getMonth 1706140800000)))
                          (snd (monthAfter (getFullYear 1706140800000) (getMonth 1706140800000)))"
    by code_simp
  have c: "DaysInMonth (fst (targetMonth 1707523200000 31)) (snd (targetMonth 1707523200000 31)) < 31"
    by code_simp
  have fa: "getFullYear 1704844800000 = 2024" "getMonth 1704844800000 = 0" by code_simp+
  have fb: "fst (monthAfter (getFullYear 1706140800000) (getMonth 1706140800000)) = 2024"
    "snd (monthAfter (getFullYear 1706140800000) (getMonth 1706140800000)) = 1" by code_simp+
  have fc: "fst (monthAfter (fst (targetMonth 1707523200000 31)) (snd (targetMonth 1707523200000 31))) = 2024"
    "snd (monthAfter (fst (targetMonth 1707523200000 31)) (snd (targetMonth 1707523200000 31))) = 2"
    "31 - DaysInMonth (fst (targetMonth 1707523200000 31)) (snd (targetMonth 1707523200000 31)) = 2"
    by code_simp+
  have A: "onDay (payDayDate 1704844800000 25) 2024 0 25"
    using payDayDate_resolution[OF h1(1,2) ya] a unfolding fa by blast
  have B: "onDay (payDayDate 1706140800000 25) 2024 1 25"
    using payDayDate_resolution[OF h1(1,2) yb] b unfolding fb by blast
  have C: "onDay (payDayDate 1707523200000 31) 2024 2 2"
    using payDayDate_resolution[OF h1(3,4) yc] c unfolding fc by blast
  show ?thesis using h1 ya yb yc a b c A B C by blast
qed


text \<open>
  Without the condition on the length of the month the property fails: on 2024-02-10
  with pay day 31 the payday is not the 31st of the current month, it is 2024-03-02.
\<close>

theorem payDayDate_overflow_counterexample:
  "(1::int) \<le> 31 \<and> (31::int) \<le> 31
   \<and> getFullYear 1707523200000 = 2024 \<and> getMonth 1707523200000 = 1
   \<and> getDate 1707523200000 = 10
   \<and> getDate 1707523200000 < 31
   \<and> \<not> onDay (payDayDate 1707523200000 31) 2024 1 31
   \<and> onDay (payDayDate 1707523200000 31) 2024 2 2"
  by code_simp


subsection \<open>C3: the worked example\<close>

text \<open>
  C3. On 2024-01-10, a Wednesday, at any time \<open>t\<close> of the day, with pay day 25: the
  payday is 2024-01-25; a daily expense of 2 adds 30; for a weekly expense of 10 on
  Wednesday the next occurrence is seven days on, 2024-01-17, the occurrences counted
  are that one and 2024-01-24, and it adds 20; a monthly expense of 50 on day 20 has the
  date 2024-01-20 and adds 50; the total until payday is 100.
\<close>

theorem worked_example:
  assumes "0 \<le> t" "t < MS_PER_DAY"
  shows "getFullYear (1704844800000 + t) = 2024 \<and> getMonth (1704844800000 + t) = 0
      \<and> getDate (1704844800000 + t) = 10 \<and> getDay (1704844800000 + t) = 3
      \<and> payDayDate (1704844800000 + t) 25 = 1706140800000
      \<and> onDay 1706140800000 2024 0 25
      \<and> dailyExpenses (1704844800000 + t) 25 [[''daily-amount'' \<mapsto> Text (Val 2) (Val 2)]]
          = Val 30
      \<and> findNextOccurrence (Val 3) (1704844800000 + t) (1704844800000 + t)
          = Some (1704844800000 + t + 7 * MS_PER_DAY)
      \<and> getMonth (1704844800000 + t + 7 * MS_PER_DAY) = 0
      \<and> getDate (1704844800000 + t + 7 * MS_PER_DAY) = 17
      \<and> getMonth (1704844800000 + t + 14 * MS_PER_DAY) = 0
      \<and> getDate (1704844800000 + t + 14 * MS_PER_DAY) = 24
      \<and> countOccurrences 1706140800000 (1704844800000 + t + 7 * MS_PER_DAY) 0 = Some 2
      \<and> weeklyExpenses (1704844800000 + t) 25
           [[''weekly-amount'' \<mapsto> Text (Val 10) (Val 10),
             ''weekly-day'' \<mapsto> Text (Val 3) (Val 3)]]
          = Some (Val 20)
      \<and> expenseDate (1704844800000 + t) 20 = 1705708800000
      \<and> onDay 1705708800000 2024 0 20
      \<and> monthlyExpenses (1704844800000 + t) 25
           [[''monthly-amount'' \<mapsto> Text (Val 50) (Val 50),
             ''monthly-day'' \<mapsto> Text (Val 20) (Val 20)]]
          = Val 50
      \<and> calculateExpensesUntilPayday (1704844800000 + t) 25
           \<lparr>monthlyContainer =
              [[''monthly-amount'' \<mapsto> Text (Val 50) (Val 50),
                ''monthly-day'' \<mapsto> Text (Val 20) (Val 20)]],
            weeklyContainer =
              [[''weekly-amount'' \<mapsto> Text (Val 10) (Val 10),
                ''weekly-day'' \<mapsto> Text (Val 3) (Val 3)]],
            dailyContainer = [[''daily-amount'' \<mapsto> Text (Val 2) (Val 2)]]\<rparr>
          = Some (Val 100)"
proof -
  note D = Day_jan10[OF assms]
  note g = getters_cong[OF D]
  have D7: "Day (1704844800000 + t + 7 * MS_PER_DAY) = Day (1704844800000 + 7 * MS_PER_DAY)"
    using D by (simp add: Day_add)
  have D14: "Day (1704844800000 + t + 14 * MS_PER_DAY) = Day (1704844800000 + 14 * MS_PER_DAY)"
    using D by (simp add: Day_add)
  have f: "findNextOccurrence (Val 3) (1704844800000 + t) (1704844800000 + t)
      = Some (1704844800000 + t + 7 * MS_PER_DAY)"
    using findNextOccurrence_valid[of 3 "1704844800000 + t"]
    by (simp add: g jan10_fields daysToNext_def)
  have P: "TimeWithinDay 1706140800000 = 0" using jan25_onDay by (simp add: onDay_def)
  have "Day (1704844800000 + t + 7 * MS_PER_DAY) = 19739"
    unfolding D7 by code_simp
  moreover have "Day 1706140800000 = 19747" by code_simp
  ultimately have c: "countOccurrences 1706140800000 (1704844800000 + t + 7 * MS_PER_DAY) 0 = Some 2"
    using countOccurrences_midnight[OF P, of "1704844800000 + t + 7 * MS_PER_DAY" 0]
    by (simp add: weeksBefore_def)
  show ?thesis
    unfolding g payDayDate_cong[OF D] dailyExpenses_cong[OF D] weeklyExpenses_cong[OF D]
      monthlyExpenses_cong[OF D] expenseDate_cong[OF D] calculateExpensesUntilPayday_cong[OF D]
      getters_cong[OF D7] getters_cong[OF D14] f c
    by (intro conjI jan10_fields jan10_payday jan25_onDay jan10_daily jan10_weekly jan10_monthly
        jan10_expenseDate jan20_onDay jan10_total jan17_24_fields refl)
qed


theorem worked_example_witness:
  "(0::int) \<le> 43200000 \<and> 43200000 < MS_PER_DAY
   \<and> calculateExpensesUntilPayday (1704844800000 + 43200000) 25
        \<lparr>monthlyContainer =
           [[''monthly-amount'' \<mapsto> Text (Val 50) (Val 50),
             ''monthly-day'' \<mapsto> Text (Val 20) (Val 20)]],
         weeklyContainer =
           [[''weekly-amount'' \<mapsto> Text (Val 10) (Val 10),
             ''weekly-day'' \<mapsto> Text (Val 3) (Val 3)]],
         dailyContainer = [[''daily-amount'' \<mapsto> Text (Val 2) (Val 2)]]\<rparr>
      = Some (Val 100)"
proof -
  have h: "(0::int) \<le> 43200000" "43200000 < MS_PER_DAY" by (simp_all add: MS_PER_DAY_def)
  show ?thesis using h worked_example[OF h] by blast
qed

subsection \<open>C4: the monthly total\<close>

text \<open>
  C4. For every form, the monthly total is the sum over all records of the amount times
  the factor of the record's cadence: 1 for a monthly record, 31/7 for a weekly record
  and 31 for a daily record, where an amount that does not parse counts as 0 (see
  \<open>amountsOf\<close>). Entries of any other name add nothing.
\<close>

theorem monthlyTotal_is_sum:
  "monthlyTotal formData =
     (\<Sum>a \<leftarrow> amountsOf ''monthly-amount'' formData. a * 1)
     + (\<Sum>a \<leftarrow> amountsOf ''weekly-amount'' formData. a * (31 / 7))
     + (\<Sum>a \<leftarrow> amountsOf ''daily-amount'' formData. a * 31)"
  unfolding monthlyTotal_sum_list
proof (induction formData)
  case Nil
  show ?case by (simp add: amountsOf_def)
next
  case (Cons e formData)
  obtain name "value" where e: "e = (name, value)" by (cases e)
  show ?case
    unfolding e using Cons.IH
    by (simp add: entryTerm_cases amountsOf_def)
qed

theorem monthlyTotal_is_sum_witness:
  "monthlyTotal
     [(''monthly-name'', Text NaN NaN), (''monthly-amount'', Text (Val 50) (Val 50)),
      (''monthly-day'', Text (Val 20) (Val 20)), (''weekly-amount'', Text (Val 7) (Val 7)),
      (''daily-amount'', Text (Val 2) (Val 2)), (''daily-amount'', Text NaN NaN),
      (''monthly-amount'', Empty)] = 143"
  using monthlyTotal_is_sum [of
     "[(''monthly-name'', Text NaN NaN), (''monthly-amount'', Text (Val 50) (Val 50)),
      (''monthly-day'', Text (Val 20) (Val 20)), (''weekly-amount'', Text (Val 7) (Val 7)),
      (''daily-amount'', Text (Val 2) (Val 2)), (''daily-amount'', Text NaN NaN),
      (''monthly-amount'', Empty)]"]
  by (simp add: amountsOf_def)


subsection \<open>C5: the weekly rule\<close>

text \<open>
  C5. For a day of the week \<open>w\<close> from 0 to 6 there is a \<open>k\<close> from 1 to 7 such that the day
  \<open>k\<close> days after today is the first day after today whose weekday is \<open>w\<close>; the
  occurrences are that day and every seventh day after it, and occurrence number \<open>j\<close>
  (from 0) is before the payday, as the loop compares the two dates and also as calendar
  days, exactly when \<open>j\<close> is less than \<open>occurrencesBefore today payDay w\<close>; that count is 1
  when the payday is exactly 7 days after the first occurrence. A weekly record with no
  day of the week (no such control, or an empty value) contributes 0 and leaves the
  running total as it is; a record with day \<open>w\<close> contributes its amount times the count
  (\<open>weeklyContribution\<close>). The weekly part of the projection, \<open>weeklyExpenses\<close>, is the sum
  of the contributions of the records, and the total that \<open>calculateExpensesUntilPayday\<close>
  returns is the daily part plus that sum plus the monthly part, whenever every day of
  the week that is present is from 0 to 6.
\<close>

theorem weekly_rule:
  "(0 \<le> w \<and> w \<le> 6 \<longrightarrow>
      (\<exists>k. 1 \<le> k \<and> k \<le> 7
         \<and> getDay (today + k * MS_PER_DAY) = w
         \<and> (\<forall>j. 1 \<le> j \<and> j < k \<longrightarrow> getDay (today + j * MS_PER_DAY) \<noteq> w)
         \<and> 0 \<le> occurrencesBefore today payDay w
         \<and> (\<forall>j. 0 \<le> j \<longrightarrow>
               (today + k * MS_PER_DAY + j * (7 * MS_PER_DAY) < payDayDate today payDay
                \<longleftrightarrow> j < occurrencesBefore today payDay w))
         \<and> (\<forall>j. 0 \<le> j \<longrightarrow>
               (Day (today + k * MS_PER_DAY) + 7 * j < Day (payDayDate today payDay)
                \<longleftrightarrow> j < occurrencesBefore today payDay w))
         \<and> (Day (payDayDate today payDay) = Day (today + k * MS_PER_DAY) + 7
              \<longrightarrow> occurrencesBefore today payDay w = 1)))
   \<and> (expense ''weekly-day'' = None \<or> expense ''weekly-day'' = Some Empty
        \<longrightarrow> weeklyContribution today payDay expense = Val 0
            \<and> weeklyStep today payDay tot expense = Some tot)
   \<and> (expense ''weekly-day'' = Some (Text f (Val w)) \<and> 0 \<le> w \<and> w \<le> 6
        \<longrightarrow> weeklyContribution today payDay expense
              = mul (getExpenseAmount expense ''weekly-amount'')
                    (Val (real_of_int (occurrencesBefore today payDay w)))
            \<and> weeklyStep today payDay tot expense
              = Some (add tot (mul (getExpenseAmount expense ''weekly-amount'')
                                   (Val (real_of_int (occurrencesBefore today payDay w))))))
   \<and> ((\<forall>e \<in> set items. weeklyDayOk e)
        \<longrightarrow> weeklyExpenses today payDay items
              = Some (sumNumbers (map (weeklyContribution today payDay) items)))
   \<and> ((\<forall>e \<in> set (weeklyContainer els). weeklyDayOk e)
        \<longrightarrow> calculateExpensesUntilPayday today payDay els
              = Some (add (add (dailyExpenses today payDay (dailyContainer els))
                               (sumNumbers (map (weeklyContribution today payDay)
                                              (weeklyContainer els))))
                          (monthlyExpenses today payDay (monthlyContainer els))))"
proof (intro conjI impI)
  assume a: "0 \<le> w \<and> w \<le> 6"
  let ?k = "daysToNext (getDay today) w"
  let ?P = "payDayDate today payDay"
  let ?n = "occurrencesBefore today payDay w"
  note r = daysToNext_range[of "getDay today" w]
  have 1: "getDay (today + ?k * MS_PER_DAY) = w"
    using a by (simp add: getDay_add daysToNext_hit)
  have 2: "\<forall>j. 1 \<le> j \<and> j < ?k \<longrightarrow> getDay (today + j * MS_PER_DAY) \<noteq> w"
    by (simp add: getDay_add daysToNext_first)
  have 3: "\<forall>j. 0 \<le> j \<longrightarrow> (Day (today + ?k * MS_PER_DAY) + 7 * j < Day ?P \<longleftrightarrow> j < ?n)"
    by (simp add: Day_add weeksBefore_iff occurrencesBefore_def)
  have td: "\<forall>j. 0 \<le> j \<longrightarrow>
      (today + ?k * MS_PER_DAY + j * (7 * MS_PER_DAY) < ?P \<longleftrightarrow> j < ?n)"
    unfolding occurrence_before_payday by (simp add: weeksBefore_iff occurrencesBefore_def)
  have 5: "Day ?P = Day (today + ?k * MS_PER_DAY) + 7 \<longrightarrow> ?n = 1"
    by (simp add: Day_add weeksBefore_def occurrencesBefore_def)
  show "\<exists>k. 1 \<le> k \<and> k \<le> 7
         \<and> getDay (today + k * MS_PER_DAY) = w
         \<and> (\<forall>j. 1 \<le> j \<and> j < k \<longrightarrow> getDay (today + j * MS_PER_DAY) \<noteq> w)
         \<and> 0 \<le> occurrencesBefore today payDay w
         \<and> (\<forall>j. 0 \<le> j \<longrightarrow>
               (today + k * MS_PER_DAY + j * (7 * MS_PER_DAY) < payDayDate today payDay
                \<longleftrightarrow> j < occurrencesBefore today payDay w))
         \<and> (\<forall>j. 0 \<le> j \<longrightarrow>
               (Day (today + k * MS_PER_DAY) + 7 * j < Day (payDayDate today payDay)
                \<longleftrightarrow> j < occurrencesBefore today payDay w))
         \<and> (Day (payDayDate today payDay) = Day (today + k * MS_PER_DAY) + 7
              \<longrightarrow> occurrencesBefore today payDay w = 1)"
    by (intro exI[of _ ?k] conjI r 1 2 td 3 5 occurrencesBefore_nonneg)
next
  assume a: "expense ''weekly-day'' = None \<or> expense ''weekly-day'' = Some Empty"
  then show "weeklyContribution today payDay expense = Val 0"
    by (auto simp: weeklyContribution_def)
  from a show "weeklyStep today payDay tot expense = Some tot"
    by (auto simp: weeklyStep_closed)
next
  assume a: "expense ''weekly-day'' = Some (Text f (Val w)) \<and> 0 \<le> w \<and> w \<le> 6"
  then show "weeklyContribution today payDay expense
      = mul (getExpenseAmount expense ''weekly-amount'')
            (Val (real_of_int (occurrencesBefore today payDay w)))"
    by (simp add: weeklyContribution_def)
  from a show "weeklyStep today payDay tot expense
      = Some (add tot (mul (getExpenseAmount expense ''weekly-amount'')
                           (Val (real_of_int (occurrencesBefore today payDay w)))))"
    by (simp add: weeklyStep_closed occurrencesBefore_def)
next
  assume "\<forall>e \<in> set items. weeklyDayOk e"
  then show "weeklyExpenses today payDay items
      = Some (sumNumbers (map (weeklyContribution today payDay) items))"
    by (rule weeklyExpenses_sum)
next
  assume "\<forall>e \<in> set (weeklyContainer els). weeklyDayOk e"
  then show "calculateExpensesUntilPayday today payDay els
      = Some (add (add (dailyExpenses today payDay (dailyContainer els))
                       (sumNumbers (map (weeklyContribution today payDay)
                                      (weeklyContainer els))))
                  (monthlyExpenses today payDay (monthlyContainer els)))"
    by (rule calculate_weekly_sum)
qed

theorem weekly_rule_witness:
  "(0::int) \<le> 3 \<and> (3::int) \<le> 6
   \<and> occurrencesBefore 1704844800000 25 3 = 2
   \<and> ([''weekly-amount'' \<mapsto> Text (Val 10) (Val 10)] ''weekly-day'' = None
      \<or> [''weekly-amount'' \<mapsto> Text (Val 10) (Val 10)] ''weekly-day'' = Some Empty)
   \<and> weeklyStep 1704844800000 25 (Val 7) [''weekly-amount'' \<mapsto> Text (Val 10) (Val 10)]
       = Some (Val 7)
   \<and> [''weekly-amount'' \<mapsto> Text (Val 10) (Val 10), ''weekly-day'' \<mapsto> Text (Val 3) (Val 3)]
        ''weekly-day'' = Some (Text (Val 3) (Val 3))
   \<and> weeklyStep 1704844800000 25 (Val 7)
        [''weekly-amount'' \<mapsto> Text (Val 10) (Val 10), ''weekly-day'' \<mapsto> Text (Val 3) (Val 3)]
       = Some (Val 27)
   \<and> list_all weeklyDayOk
        [[''weekly-amount'' \<mapsto> Text (Val 10) (Val 10)],
         [''weekly-amount'' \<mapsto> Text (Val 10) (Val 10), ''weekly-day'' \<mapsto> Text (Val 3) (Val 3)],
         [''weekly-amount'' \<mapsto> Text (Val 4) (Val 4), ''weekly-day'' \<mapsto> Text (Val 5) (Val 5)]]
   \<and> weeklyExpenses 1704844800000 25
        [[''weekly-amount'' \<mapsto> Text (Val 10) (Val 10)],
         [''weekly-amount'' \<mapsto> Text (Val 10) (Val 10), ''weekly-day'' \<mapsto> Text (Val 3) (Val 3)],
         [''weekly-amount'' \<mapsto> Text (Val 4) (Val 4), ''weekly-day'' \<mapsto> Text (Val 5) (Val 5)]]
       = Some (Val 28)
   \<and> calculateExpensesUntilPayday 1704844800000 25
        \<lparr>monthlyContainer =
           [[''monthly-amount'' \<mapsto> Text (Val 50) (Val 50),
             ''monthly-day'' \<mapsto> Text (Val 20) (Val 20)]],
         weeklyContainer =
           [[''weekly-amount'' \<mapsto> Text (Val 10) (Val 10)],
            [''weekly-amount'' \<mapsto> Text (Val 10) (Val 10), ''weekly-day'' \<mapsto> Text (Val 3) (Val 3)],
            [''weekly-amount'' \<mapsto> Text (Val 4) (Val 4), ''weekly-day'' \<mapsto> Text (Val 5) (Val 5)]],
         dailyContainer = [[''daily-amount'' \<mapsto> Text (Val 2) (Val 2)]]\<rparr>
       = Some (Val 108)"
proof -
  let ?t = "1704844800000 :: int"
  let ?e1 = "[''weekly-amount'' \<mapsto> Text (Val 10) (Val 10)] :: expenseItem"
  let ?e2 = "[''weekly-amount'' \<mapsto> Text (Val 10) (Val 10),
              ''weekly-day'' \<mapsto> Text (Val 3) (Val 3)] :: expenseItem"
  let ?e3 = "[''weekly-amount'' \<mapsto> Text (Val 4) (Val 4),
              ''weekly-day'' \<mapsto> Text (Val 5) (Val 5)] :: expenseItem"
  let ?els = "\<lparr>monthlyContainer =
           [[''monthly-amount'' \<mapsto> Text (Val 50) (Val 50),
             ''monthly-day'' \<mapsto> Text (Val 20) (Val 20)]],
         weeklyContainer = [?e1, ?e2, ?e3],
         dailyContainer = [[''daily-amount'' \<mapsto> Text (Val 2) (Val 2)]]\<rparr>"
  have W: "(0::int) \<le> 3 \<and> (3::int) \<le> 6" by simp
  note T1 = weekly_rule[of 3 ?t 25 ?e1 "Val 7" "Val 10" "[?e1, ?e2, ?e3]" ?els]
  note T2 = weekly_rule[of 3 ?t 25 ?e2 "Val 7" "Val 3" "[?e1, ?e2, ?e3]" ?els]
  from T1 W obtain k where
    k: "1 \<le> k" "k \<le> 7" and g: "getDay (?t + k * MS_PER_DAY) = 3" and
    c: "\<forall>j. 0 \<le> j \<longrightarrow>
          (Day (?t + k * MS_PER_DAY) + 7 * j < Day (payDayDate ?t 25)
           \<longleftrightarrow> j < occurrencesBefore ?t 25 3)"
    by blast
  have "(3 + k) mod 7 = 3" using g by (simp add: getDay_add jan10_fields)
  moreover have "k = 1 \<or> k = 2 \<or> k = 3 \<or> k = 4 \<or> k = 5 \<or> k = 6 \<or> k = 7"
    using k by presburger
  ultimately have k7: "k = 7" by auto
  have D: "Day (?t + 7 * MS_PER_DAY) = 19739" "Day (payDayDate ?t 25) = 19747"
    by code_simp+
  have "1 < occurrencesBefore ?t 25 3" using c[rule_format, of 1] unfolding k7 D by simp
  moreover have "\<not> 2 < occurrencesBefore ?t 25 3"
    using c[rule_format, of 2] unfolding k7 D by simp
  ultimately have n: "occurrencesBefore ?t 25 3 = 2" by simp
  have A: "?e1 ''weekly-day'' = None \<or> ?e1 ''weekly-day'' = Some Empty" by simp
  have X: "weeklyStep ?t 25 (Val 7) ?e1 = Some (Val 7)" using T1 A by blast
  have B: "?e2 ''weekly-day'' = Some (Text (Val 3) (Val 3))" by simp
  have "weeklyStep ?t 25 (Val 7) ?e2
      = Some (add (Val 7) (mul (getExpenseAmount ?e2 ''weekly-amount'')
                               (Val (real_of_int (occurrencesBefore ?t 25 3)))))"
    using T2 B W by blast
  then have Y: "weeklyStep ?t 25 (Val 7) ?e2 = Some (Val 27)"
    unfolding n by (simp add: getExpenseAmount_def)
  have ok: "list_all weeklyDayOk [?e1, ?e2, ?e3]" by (simp add: weeklyDayOk_def)
  then have ok': "\<forall>e \<in> set [?e1, ?e2, ?e3]. weeklyDayOk e"
    "\<forall>e \<in> set (weeklyContainer ?els). weeklyDayOk e" by simp_all
  have s: "sumNumbers (map (weeklyContribution ?t 25) [?e1, ?e2, ?e3]) = Val 28" by code_simp
  have E: "weeklyExpenses ?t 25 [?e1, ?e2, ?e3] = Some (Val 28)"
    using T1 ok'(1) unfolding s by blast
  have d: "dailyExpenses ?t 25 (dailyContainer ?els) = Val 30"
    "monthlyExpenses ?t 25 (monthlyContainer ?els) = Val 50"
    "sumNumbers (map (weeklyContribution ?t 25) (weeklyContainer ?els)) = Val 28"
    by code_simp+
  have "calculateExpensesUntilPayday ?t 25 ?els
      = Some (add (add (dailyExpenses ?t 25 (dailyContainer ?els))
                       (sumNumbers (map (weeklyContribution ?t 25) (weeklyContainer ?els))))
                  (monthlyExpenses ?t 25 (monthlyContainer ?els)))"
    using T1 ok'(2) by blast
  then have C: "calculateExpensesUntilPayday ?t 25 ?els = Some (Val 108)"
    unfolding d by simp
  show ?thesis using W n A X B Y ok E C by blast
qed


subsection \<open>C6: the monthly rule\<close>

text \<open>
  C6, as amended. When today's year is not one of 0 to 99: the monthly part of the
  projection, \<open>monthlyExpenses\<close>, is the sum of the full amounts of exactly the records
  that are included, and the total that \<open>calculateExpensesUntilPayday\<close> returns is the
  daily part plus the weekly part plus that sum. A record whose day of the month \<open>d\<close> is
  from 1 to 31 is included if and only if its date is strictly before the payday. Its
  date is taken in the current month, or in the following month when \<open>d\<close> is not after
  today's day of the month, whatever the pay day is (\<open>targetMonth\<close>). It is midnight of
  day \<open>d\<close> of that month when the month has that many days; when the month is shorter, the
  date runs over into the month after it, to the day numbered \<open>d\<close> minus the length of
  the month.
\<close>

theorem monthly_rule:
  assumes "\<not> (0 \<le> getFullYear today \<and> getFullYear today \<le> 99)"
  shows "monthlyExpenses today payDay (monthlyContainer els)
           = sumNumbers (map (\<lambda>e. getExpenseAmount e ''monthly-amount'')
                           (filter (monthlyIncluded today payDay) (monthlyContainer els)))
       \<and> calculateExpensesUntilPayday today payDay els
           = (case weeklyExpenses today payDay (weeklyContainer els) of
                None \<Rightarrow> None
              | Some weekly \<Rightarrow>
                  Some (add (add (dailyExpenses today payDay (dailyContainer els)) weekly)
                            (sumNumbers (map (\<lambda>e. getExpenseAmount e ''monthly-amount'')
                                           (filter (monthlyIncluded today payDay)
                                                   (monthlyContainer els))))))
       \<and> (\<forall>e \<in> set (monthlyContainer els). \<forall>d.
            dayOfMonthOf e = Val d \<and> 1 \<le> d \<and> d \<le> 31 \<longrightarrow>
              (monthlyIncluded today payDay e
                 \<longleftrightarrow> expenseDate today d < payDayDate today payDay)
            \<and> monthlyStep today payDay tot e
                 = (if expenseDate today d < payDayDate today payDay
                    then add tot (getExpenseAmount e ''monthly-amount'')
                    else tot)
            \<and> targetMonth today d
                 = (if d \<le> getDate today
                    then monthAfter (getFullYear today) (getMonth today)
                    else (getFullYear today, getMonth today))
            \<and> (d \<le> DaysInMonth (fst (targetMonth today d)) (snd (targetMonth today d))
                \<longrightarrow> onDay (expenseDate today d)
                      (fst (targetMonth today d)) (snd (targetMonth today d)) d)
            \<and> (DaysInMonth (fst (targetMonth today d)) (snd (targetMonth today d)) < d
                \<longrightarrow> onDay (expenseDate today d)
                      (fst (monthAfter (fst (targetMonth today d)) (snd (targetMonth today d))))
                      (snd (monthAfter (fst (targetMonth today d)) (snd (targetMonth today d))))
                      (d - DaysInMonth (fst (targetMonth today d))
                                       (snd (targetMonth today d)))))"
proof (intro conjI ballI allI impI)
  show "monthlyExpenses today payDay (monthlyContainer els)
           = sumNumbers (map (\<lambda>e. getExpenseAmount e ''monthly-amount'')
                           (filter (monthlyIncluded today payDay) (monthlyContainer els)))"
    by (rule monthlyExpenses_sum)
  show "calculateExpensesUntilPayday today payDay els
           = (case weeklyExpenses today payDay (weeklyContainer els) of
                None \<Rightarrow> None
              | Some weekly \<Rightarrow>
                  Some (add (add (dailyExpenses today payDay (dailyContainer els)) weekly)
                            (sumNumbers (map (\<lambda>e. getExpenseAmount e ''monthly-amount'')
                                           (filter (monthlyIncluded today payDay)
                                                   (monthlyContainer els))))))"
    unfolding calculateExpensesUntilPayday_def monthlyExpenses_sum Let_def ..
next
  fix e d
  assume a: "dayOfMonthOf e = Val d \<and> 1 \<le> d \<and> d \<le> 31"
  then have e: "dayOfMonthOf e = Val d" and d: "1 \<le> d" "d \<le> 31" by simp_all
  note q = expenseDate_eq_payDayDate[OF assms d(1)]
  show "monthlyIncluded today payDay e \<longleftrightarrow> expenseDate today d < payDayDate today payDay"
    using e by (simp add: monthlyIncluded_def)
  show "monthlyStep today payDay tot e
           = (if expenseDate today d < payDayDate today payDay
              then add tot (getExpenseAmount e ''monthly-amount'')
              else tot)"
    using e by (simp add: monthlyStep_def)
  show "targetMonth today d
           = (if d \<le> getDate today then monthAfter (getFullYear today) (getMonth today)
              else (getFullYear today, getMonth today))"
    by (simp add: targetMonth_def)
  show "onDay (expenseDate today d) (fst (targetMonth today d)) (snd (targetMonth today d)) d"
    if "d \<le> DaysInMonth (fst (targetMonth today d)) (snd (targetMonth today d))"
    unfolding q using that by (rule payDayDate_onDay(1)[OF assms d])
  show "onDay (expenseDate today d)
      (fst (monthAfter (fst (targetMonth today d)) (snd (targetMonth today d))))
      (snd (monthAfter (fst (targetMonth today d)) (snd (targetMonth today d))))
      (d - DaysInMonth (fst (targetMonth today d)) (snd (targetMonth today d)))"
    if "DaysInMonth (fst (targetMonth today d)) (snd (targetMonth today d)) < d"
    unfolding q using that by (rule payDayDate_onDay(2)[OF assms d])
qed

theorem monthly_rule_witness:
  "\<not> (0 \<le> getFullYear 1704844800000 \<and> getFullYear 1704844800000 \<le> 99)
   \<and> \<not> (0 \<le> getFullYear 1712707200000 \<and> getFullYear 1712707200000 \<le> 99)
   \<and> monthlyExpenses 1704844800000 25
        [[''monthly-amount'' \<mapsto> Text (Val 50) (Val 50), ''monthly-day'' \<mapsto> Text (Val 20) (Val 20)],
         [''monthly-amount'' \<mapsto> Text (Val 30) (Val 30), ''monthly-day'' \<mapsto> Text (Val 10) (Val 10)],
         [''monthly-amount'' \<mapsto> Text (Val 8) (Val 8), ''monthly-day'' \<mapsto> Text (Val 24) (Val 24)]]
       = Val 58
   \<and> calculateExpensesUntilPayday 1704844800000 25
        \<lparr>monthlyContainer =
          [[''monthly-amount'' \<mapsto> Text (Val 50) (Val 50), ''monthly-day'' \<mapsto> Text (Val 20) (Val 20)],
           [''monthly-amount'' \<mapsto> Text (Val 30) (Val 30), ''monthly-day'' \<mapsto> Text (Val 10) (Val 10)],
           [''monthly-amount'' \<mapsto> Text (Val 8) (Val 8), ''monthly-day'' \<mapsto> Text (Val 24) (Val 24)]],
         weeklyContainer = [],
         dailyContainer = [[''daily-amount'' \<mapsto> Text (Val 2) (Val 2)]]\<rparr>
       = Some (Val 88)
   \<and> dayOfMonthOf [''monthly-amount'' \<mapsto> Text (Val 50) (Val 50),
                    ''monthly-day'' \<mapsto> Text (Val 20) (Val 20)] = Val 20
   \<and> (1::int) \<le> 20 \<and> (20::int) \<le> 31
   \<and> 20 \<le> DaysInMonth (fst (targetMonth 1704844800000 20)) (snd (targetMonth 1704844800000 20))
   \<and> onDay (expenseDate 1704844800000 20) 2024 0 20
   \<and> dayOfMonthOf [''monthly-amount'' \<mapsto> Text (Val 30) (Val 30),
                    ''monthly-day'' \<mapsto> Text (Val 10) (Val 10)] = Val 10
   \<and> (1::int) \<le> 10 \<and> (10::int) \<le> 31
   \<and> 10 \<le> DaysInMonth (fst (targetMonth 1704844800000 10)) (snd (targetMonth 1704844800000 10))
   \<and> onDay (expenseDate 1704844800000 10) 2024 1 10
   \<and> dayOfMonthOf [''monthly-amount'' \<mapsto> Text (Val 50) (Val 50),
                    ''monthly-day'' \<mapsto> Text (Val 31) (Val 31)] = Val 31
   \<and> (1::int) \<le> 31 \<and> (31::int) \<le> 31
   \<and> DaysInMonth (fst (targetMonth 1712707200000 31)) (snd (targetMonth 1712707200000 31)) < 31
   \<and> onDay (expenseDate 1712707200000 31) 2024 4 1"
proof -
  let ?t = "1704844800000 :: int" and ?u = "1712707200000 :: int"
  let ?e = "[''monthly-amount'' \<mapsto> Text (Val 50) (Val 50),
             ''monthly-day'' \<mapsto> Text (Val 20) (Val 20)] :: expenseItem"
  let ?g = "[''monthly-amount'' \<mapsto> Text (Val 30) (Val 30),
             ''monthly-day'' \<mapsto> Text (Val 10) (Val 10)] :: expenseItem"
  let ?h = "[''monthly-amount'' \<mapsto> Text (Val 8) (Val 8),
             ''monthly-day'' \<mapsto> Text (Val 24) (Val 24)] :: expenseItem"
  let ?f = "[''monthly-amount'' \<mapsto> Text (Val 50) (Val 50),
             ''monthly-day'' \<mapsto> Text (Val 31) (Val 31)] :: expenseItem"
  let ?els = "\<lparr>monthlyContainer = [?e, ?g, ?h], weeklyContainer = [],
         dailyContainer = [[''daily-amount'' \<mapsto> Text (Val 2) (Val 2)]]\<rparr>"
  let ?fls = "\<lparr>monthlyContainer = [?f], weeklyContainer = [], dailyContainer = []\<rparr>"
  have yt: "\<not> (0 \<le> getFullYear ?t \<and> getFullYear ?t \<le> 99)" by code_simp
  have yu: "\<not> (0 \<le> getFullYear ?u \<and> getFullYear ?u \<le> 99)" by code_simp
  note T = monthly_rule[OF yt, of 25 ?els "Val 0"]
  note U = monthly_rule[OF yu, of 25 ?fls "Val 0"]
  have s: "sumNumbers (map (\<lambda>e. getExpenseAmount e ''monthly-amount'')
             (filter (monthlyIncluded ?t 25) (monthlyContainer ?els))) = Val 58"
    by code_simp
  have w: "weeklyExpenses ?t 25 (weeklyContainer ?els) = Some (Val 0)"
    and dl: "dailyExpenses ?t 25 (dailyContainer ?els) = Val 30"
    by code_simp+
  have c1: "monthlyExpenses ?t 25 (monthlyContainer ?els)
      = sumNumbers (map (\<lambda>e. getExpenseAmount e ''monthly-amount'')
          (filter (monthlyIncluded ?t 25) (monthlyContainer ?els)))"
    using T by (rule conjunct1)
  have 1: "monthlyExpenses ?t 25 [?e, ?g, ?h] = Val 58"
    using c1 s by simp
  have c2: "calculateExpensesUntilPayday ?t 25 ?els
      = (case weeklyExpenses ?t 25 (weeklyContainer ?els) of
           None \<Rightarrow> None
         | Some weekly \<Rightarrow>
             Some (add (add (dailyExpenses ?t 25 (dailyContainer ?els)) weekly)
                       (sumNumbers (map (\<lambda>e. getExpenseAmount e ''monthly-amount'')
                                      (filter (monthlyIncluded ?t 25) (monthlyContainer ?els))))))"
    using T by (rule conjunct1[OF conjunct2])
  have 2: "calculateExpensesUntilPayday ?t 25 ?els = Some (Val 88)"
    using c2 s w dl by simp
  have e: "dayOfMonthOf ?e = Val 20" and g: "dayOfMonthOf ?g = Val 10"
    and f: "dayOfMonthOf ?f = Val 31"
    by (simp_all add: dayOfMonthOf_def)
  have n: "(1::int) \<le> 20" "(20::int) \<le> 31" "(1::int) \<le> 10" "(10::int) \<le> 31"
    "(1::int) \<le> 31" "(31::int) \<le> 31" by simp_all
  have a: "20 \<le> DaysInMonth (fst (targetMonth ?t 20)) (snd (targetMonth ?t 20))"
    and a': "10 \<le> DaysInMonth (fst (targetMonth ?t 10)) (snd (targetMonth ?t 10))"
    and b: "DaysInMonth (fst (targetMonth ?u 31)) (snd (targetMonth ?u 31)) < 31"
    by code_simp+
  have ft: "fst (targetMonth ?t 20) = 2024" "snd (targetMonth ?t 20) = 0"
    "fst (targetMonth ?t 10) = 2024" "snd (targetMonth ?t 10) = 1" by code_simp+
  have fu: "fst (monthAfter (fst (targetMonth ?u 31)) (snd (targetMonth ?u 31))) = 2024"
    "snd (monthAfter (fst (targetMonth ?u 31)) (snd (targetMonth ?u 31))) = 4"
    "31 - DaysInMonth (fst (targetMonth ?u 31)) (snd (targetMonth ?u 31)) = 1"
    by code_simp+
  have ine: "?e \<in> set (monthlyContainer ?els)" "?g \<in> set (monthlyContainer ?els)"
    "?f \<in> set (monthlyContainer ?fls)" by simp_all
  note T3 = T[THEN conjunct2, THEN conjunct2, rule_format]
  note U3 = U[THEN conjunct2, THEN conjunct2, rule_format]
  have 3: "onDay (expenseDate ?t 20) 2024 0 20"
    using T3[OF ine(1) conjI[OF e conjI[OF n(1) n(2)]],
        THEN conjunct2, THEN conjunct2, THEN conjunct2, THEN conjunct1] a
    unfolding ft by simp
  have 4: "onDay (expenseDate ?t 10) 2024 1 10"
    using T3[OF ine(2) conjI[OF g conjI[OF n(3) n(4)]],
        THEN conjunct2, THEN conjunct2, THEN conjunct2, THEN conjunct1] a'
    unfolding ft by simp
  have 5: "onDay (expenseDate ?u 31) 2024 4 1"
    using U3[OF ine(3) conjI[OF f conjI[OF n(5) n(6)]],
        THEN conjunct2, THEN conjunct2, THEN conjunct2, THEN conjunct2] b
    unfolding fu by simp
  show ?thesis by (intro conjI yt yu 1 2 e g f n a a' b 3 4 5)
qed


text \<open>
  Without the condition on the length of the month the property fails. On 2024-04-10 a
  record on day 31 is not rolled (31 is after 10), and its date is not the
  31st of the current month, April: it is 2024-05-01. With pay day 1 the payday is
  2024-05-01 as well, and the record adds nothing to the monthly part and to the total,
  although every day of April, its last day 2024-04-30 included, is before the payday.
  With pay day 2 the same record is included.
\<close>

theorem monthly_overflow_counterexample:
  "getFullYear 1712707200000 = 2024 \<and> getMonth 1712707200000 = 3
   \<and> getDate 1712707200000 = 10
   \<and> dayOfMonthOf [''monthly-amount'' \<mapsto> Text (Val 50) (Val 50),
                    ''monthly-day'' \<mapsto> Text (Val 31) (Val 31)] = Val 31
   \<and> \<not> onDay (expenseDate 1712707200000 31) 2024 3 31
   \<and> onDay (expenseDate 1712707200000 31) 2024 4 1
   \<and> onDay (payDayDate 1712707200000 1) 2024 4 1
   \<and> onDay (newDate 2024 3 30) 2024 3 30
   \<and> newDate 2024 3 30 < payDayDate 1712707200000 1
   \<and> monthlyExpenses 1712707200000 1
        [[''monthly-amount'' \<mapsto> Text (Val 50) (Val 50),
          ''monthly-day'' \<mapsto> Text (Val 31) (Val 31)]] = Val 0
   \<and> calculateExpensesUntilPayday 1712707200000 1
        \<lparr>monthlyContainer =
           [[''monthly-amount'' \<mapsto> Text (Val 50) (Val 50),
             ''monthly-day'' \<mapsto> Text (Val 31) (Val 31)]],
         weeklyContainer = [], dailyContainer = []\<rparr> = Some (Val 0)
   \<and> onDay (payDayDate 1712707200000 2) 2024 4 2
   \<and> monthlyExpenses 1712707200000 2
        [[''monthly-amount'' \<mapsto> Text (Val 50) (Val 50),
          ''monthly-day'' \<mapsto> Text (Val 31) (Val 31)]] = Val 50
   \<and> calculateExpensesUntilPayday 1712707200000 2
        \<lparr>monthlyContainer =
           [[''monthly-amount'' \<mapsto> Text (Val 50) (Val 50),
             ''monthly-day'' \<mapsto> Text (Val 31) (Val 31)]],
         weeklyContainer = [], dailyContainer = []\<rparr> = Some (Val 50)"
  by code_simp


subsection \<open>C7: the order of the records\<close>

text \<open>
  C7. The monthly total of a form does not change when its entries are permuted; this
  covers every permutation of the records of one cadence. (Numbers are exact here: the
  rounding of the addition of doubles is not part of the model.)
\<close>

theorem monthlyTotal_permutation:
  assumes "mset formData' = mset formData"
  shows "monthlyTotal formData' = monthlyTotal formData"
proof -
  have "sum_list (map entryTerm formData') = sum_mset (image_mset entryTerm (mset formData'))"
    by (metis mset_map sum_mset_sum_list)
  also have "\<dots> = sum_mset (image_mset entryTerm (mset formData))"
    using assms by simp
  also have "\<dots> = sum_list (map entryTerm formData)"
    by (metis mset_map sum_mset_sum_list)
  finally show ?thesis by (simp add: monthlyTotal_sum_list)
qed

theorem monthlyTotal_permutation_witness:
  "mset [(''monthly-amount'', Text (Val 3) (Val 3)), (''monthly-amount'', Text (Val 5) (Val 5)),
         (''weekly-amount'', Text (Val 7) (Val 7))]
   = mset [(''monthly-amount'', Text (Val 5) (Val 5)), (''monthly-amount'', Text (Val 3) (Val 3)),
           (''weekly-amount'', Text (Val 7) (Val 7))]
   \<and> monthlyTotal
        [(''monthly-amount'', Text (Val 3) (Val 3)), (''monthly-amount'', Text (Val 5) (Val 5)),
         (''weekly-amount'', Text (Val 7) (Val 7))]
     = monthlyTotal
        [(''monthly-amount'', Text (Val 5) (Val 5)), (''monthly-amount'', Text (Val 3) (Val 3)),
         (''weekly-amount'', Text (Val 7) (Val 7))]"
proof -
  have p: "mset [(''monthly-amount'', Text (Val 3) (Val 3)), (''monthly-amount'', Text (Val 5) (Val 5)),
         (''weekly-amount'', Text (Val 7) (Val 7))]
   = mset [(''monthly-amount'', Text (Val 5) (Val 5)), (''monthly-amount'', Text (Val 3) (Val 3)),
           (''weekly-amount'', Text (Val 7) (Val 7))]"
    by simp
  show ?thesis using p monthlyTotal_permutation [OF p] by simp
qed


subsection \<open>C8: malformed input\<close>

text \<open>
  C8. The specification: every input, however malformed, yields a defined number, a
  field that does not parse counting as 0 or as a default. The monthly total does so: it reads an
  amount as \<open>parseFloat(value) || 0\<close>. The total until payday does not. Its
  \<open>getExpenseAmount\<close> reads \<open>parseFloat(value || 0)\<close>, which replaces an empty text and
  lets a text that is not a number through as \<open>NaN\<close>: with one daily record of such an
  amount the total until payday is \<open>NaN\<close>. And a weekly record whose day text is not a
  number is never matched by \<open>getDay()\<close>: the search for its next occurrence does not
  end and the function does not return.
\<close>

theorem malformed_amount_is_NaN:
  "monthlyTotal [(''daily-amount'', Text NaN NaN)] = 0
   \<and> getExpenseAmount [''daily-amount'' \<mapsto> Text NaN NaN] ''daily-amount'' = NaN
   \<and> calculateExpensesUntilPayday 1704844800000 25
        \<lparr>monthlyContainer = [], weeklyContainer = [],
         dailyContainer = [[''daily-amount'' \<mapsto> Text NaN NaN]]\<rparr>
      = Some NaN
   \<and> calculateExpensesUntilPayday 1704844800000 25
        \<lparr>monthlyContainer = [],
         weeklyContainer =
           [[''weekly-amount'' \<mapsto> Text (Val 10) (Val 10), ''weekly-day'' \<mapsto> Text NaN NaN]],
         dailyContainer = []\<rparr>
      = None"
proof -
  have 1: "monthlyTotal [(''daily-amount'', Text NaN NaN)] = 0" by code_simp
  have 2: "getExpenseAmount [''daily-amount'' \<mapsto> Text NaN NaN] ''daily-amount'' = NaN"
    by code_simp
  have 3: "calculateExpensesUntilPayday 1704844800000 25
        \<lparr>monthlyContainer = [], weeklyContainer = [],
         dailyContainer = [[''daily-amount'' \<mapsto> Text NaN NaN]]\<rparr>
      = Some NaN"
    by code_simp
  have "weeklyExpenses 1704844800000 25
      [[''weekly-amount'' \<mapsto> Text (Val 10) (Val 10), ''weekly-day'' \<mapsto> Text NaN NaN]] = None"
    by (simp add: weeklyExpenses_def weeklyStep_closed)
  then have 4: "calculateExpensesUntilPayday 1704844800000 25
        \<lparr>monthlyContainer = [],
         weeklyContainer =
           [[''weekly-amount'' \<mapsto> Text (Val 10) (Val 10), ''weekly-day'' \<mapsto> Text NaN NaN]],
         dailyContainer = []\<rparr>
      = None"
    by (simp add: calculateExpensesUntilPayday_def)
  show ?thesis using 1 2 3 4 by blast
qed

subsection \<open>C9: the time of day\<close>





subsection \<open>C10: the two loops of the weekly rule end\<close>

text \<open>
  C10. For a day of the week \<open>w\<close> from 0 to 6, the search for the next occurrence ends
  after its body has run \<open>k\<close> times, \<open>k\<close> from 1 to 7: the loop condition holds after each
  of the first \<open>k - 1\<close> runs and at the start, and the result is the date after \<open>k\<close> runs.
  The loop that counts the occurrences ends as well, from that date and for every pay
  day: it returns a count \<open>n\<close>, the number of times its body has run, and 7 times \<open>n\<close> is
  at most the number of days from today to the payday plus 5 (0 for a payday not after
  today). For a pay day from 1 to 31 (today's year not one of 0 to 99) the payday is at
  most 31 days after today, and \<open>n\<close> is at most 5.
\<close>

theorem weekly_loops_terminate:
  assumes "0 \<le> w" "w \<le> 6"
  shows "\<exists>k::nat. 1 \<le> k \<and> k \<le> 7
      \<and> findNextOccurrence (Val w) today today
          = Some (((\<lambda>d. setDate d (getDate d + 1)) ^^ k) today)
      \<and> (\<forall>j<k. Val (getDay (((\<lambda>d. setDate d (getDate d + 1)) ^^ j) today)) \<noteq> Val w
                 \<or> ((\<lambda>d. setDate d (getDate d + 1)) ^^ j) today \<le> today)
      \<and> (\<exists>n::nat. countOccurrences (payDayDate today payDay)
                      (((\<lambda>d. setDate d (getDate d + 1)) ^^ k) today) 0 = Some (int n)
            \<and> 7 * int n \<le> max 0 (Day (payDayDate today payDay) - Day today + 5)
            \<and> (1 \<le> payDay \<and> payDay \<le> 31
                 \<and> \<not> (0 \<le> getFullYear today \<and> getFullYear today \<le> 99)
               \<longrightarrow> n \<le> 5))"
proof -
  let ?k = "daysToNext (getDay today) w"
  let ?P = "payDayDate today payDay"
  let ?n = "weeksBefore (Day today + ?k) (Day ?P)"
  note r = daysToNext_range[of "getDay today" w]
  have 1: "1 \<le> nat ?k" "nat ?k \<le> 7" using r by linarith+
  have 2: "findNextOccurrence (Val w) today today
      = Some (((\<lambda>d. setDate d (getDate d + 1)) ^^ nat ?k) today)"
    using r by (simp add: funpow_nextDay findNextOccurrence_valid[OF assms])
  have 3: "\<forall>j<nat ?k. Val (getDay (((\<lambda>d. setDate d (getDate d + 1)) ^^ j) today)) \<noteq> Val w
                 \<or> ((\<lambda>d. setDate d (getDate d + 1)) ^^ j) today \<le> today"
  proof (intro allI impI)
    fix j :: nat
    assume j: "j < nat ?k"
    show "Val (getDay (((\<lambda>d. setDate d (getDate d + 1)) ^^ j) today)) \<noteq> Val w
                 \<or> ((\<lambda>d. setDate d (getDate d + 1)) ^^ j) today \<le> today"
    proof (cases "j = 0")
      case True
      then show ?thesis by simp
    next
      case False
      then have "1 \<le> int j" "int j < ?k" using j by simp_all
      then have "(getDay today + int j) mod 7 \<noteq> w" by (rule daysToNext_first)
      then show ?thesis by (simp add: funpow_nextDay getDay_add)
    qed
  qed
  have c: "countOccurrences ?P (((\<lambda>d. setDate d (getDate d + 1)) ^^ nat ?k) today) 0 = Some ?n"
    using r countOccurrences_midnight[OF payDayDate_midnight, of today payDay "today + ?k * MS_PER_DAY" 0]
    by (simp add: funpow_nextDay Day_add)
  have n: "int (nat ?n) = ?n" using weeksBefore_nonneg[of "Day today + ?k" "Day ?P"] by simp
  have b: "1 \<le> payDay \<and> payDay \<le> 31
             \<and> \<not> (0 \<le> getFullYear today \<and> getFullYear today \<le> 99)
           \<longrightarrow> nat ?n \<le> 5"
  proof
    assume a: "1 \<le> payDay \<and> payDay \<le> 31
             \<and> \<not> (0 \<le> getFullYear today \<and> getFullYear today \<le> 99)"
    then have "Day ?P - Day today \<le> 31" using payday_distance(2)[of payDay today] by blast
    then have "?n \<le> 5" using r(1) by (intro weeksBefore_le)
    then show "nat ?n \<le> 5" by simp
  qed
  have 4: "\<exists>n::nat. countOccurrences ?P (((\<lambda>d. setDate d (getDate d + 1)) ^^ nat ?k) today) 0
              = Some (int n)
            \<and> 7 * int n \<le> max 0 (Day ?P - Day today + 5)
            \<and> (1 \<le> payDay \<and> payDay \<le> 31
                 \<and> \<not> (0 \<le> getFullYear today \<and> getFullYear today \<le> 99)
               \<longrightarrow> n \<le> 5)"
    using c n b weeksBefore_bound[OF r(1), of "Day today" "Day ?P"]
    by (intro exI[of _ "nat ?n"]) simp
  show ?thesis by (intro exI[of _ "nat ?k"] conjI 1 2 3 4)
qed


theorem weekly_loops_terminate_witness:
  "(0::int) \<le> 3 \<and> (3::int) \<le> 6
   \<and> (\<exists>k::nat. 1 \<le> k \<and> k \<le> 7
      \<and> findNextOccurrence (Val 3) 1704844800000 1704844800000
          = Some (((\<lambda>d. setDate d (getDate d + 1)) ^^ k) 1704844800000)
      \<and> (\<forall>j<k. Val (getDay (((\<lambda>d. setDate d (getDate d + 1)) ^^ j) 1704844800000)) \<noteq> Val 3
                 \<or> ((\<lambda>d. setDate d (getDate d + 1)) ^^ j) 1704844800000 \<le> 1704844800000)
      \<and> (\<exists>n::nat. countOccurrences (payDayDate 1704844800000 25)
                      (((\<lambda>d. setDate d (getDate d + 1)) ^^ k) 1704844800000) 0 = Some (int n)
            \<and> 7 * int n \<le> max 0 (Day (payDayDate 1704844800000 25) - Day 1704844800000 + 5)
            \<and> ((1::int) \<le> 25 \<and> (25::int) \<le> 31
                 \<and> \<not> (0 \<le> getFullYear 1704844800000 \<and> getFullYear 1704844800000 \<le> 99)
               \<longrightarrow> n \<le> 5)))"
proof -
  have h: "(0::int) \<le> 3" "(3::int) \<le> 6" by simp_all
  show ?thesis by (intro conjI h weekly_loops_terminate[OF h])
qed

end
